theory Spec2Isabelle
  imports Complex_Main "HOL-Library.AList"
begin

section \<open>Python primitives\<close>

text \<open>
  A Python float is a double. Its value is idealised as an exact real: \<open>+\<close>, \<open>-\<close>,
  \<open>*\<close>, \<open>/\<close> and the functions of the \<open>math\<close> module are the mathematical ones, and
  the rounding of a result to 53 bits is left out. What is kept is the range of a double
  wherever Python raises on leaving it: \<open>2.0 ** zoom\<close> raises OverflowError, a result
  that rounds to infinity makes a later \<open>int\<close> or \<open>round\<close> raise OverflowError, and a
  quotient that rounds to zero makes a later division raise ZeroDivisionError and a
  later \<open>math.log2\<close> raise ValueError. Python integers are unbounded, hence \<open>int\<close>.
\<close>

datatype py_error = ValueError | ZeroDivisionError | OverflowError | OSError

text \<open>
  Round to nearest sends every real of magnitude at least \<open>2^1024 - 2^970\<close> to an
  infinity, and every real of magnitude at most \<open>2^-1075\<close> to zero.
\<close>

definition rounds_to_inf :: "real \<Rightarrow> bool" where
  "rounds_to_inf v \<longleftrightarrow> 2 ^ 1024 - 2 ^ 970 \<le> \<bar>v\<bar>"

definition rounds_to_zero :: "real \<Rightarrow> bool" where
  "rounds_to_zero v \<longleftrightarrow> \<bar>v\<bar> \<le> 1 / 2 ^ 1075"

text \<open>\<open>int(x)\<close> on a float truncates toward zero.\<close>

definition py_int :: "real \<Rightarrow> int" where
  "py_int x = (if 0 \<le> x then \<lfloor>x\<rfloor> else \<lceil>x\<rceil>)"

text \<open>\<open>int(x)\<close> on the float of a computed result: an infinity raises OverflowError.\<close>

definition int_of_float :: "real \<Rightarrow> py_error + int" where
  "int_of_float v = (if rounds_to_inf v then Inl OverflowError else Inr (py_int v))"

text \<open>\<open>round(x)\<close> on a float rounds to the nearest integer, a tie going to the even one.\<close>

definition py_round :: "real \<Rightarrow> int" where
  "py_round x =
     (let f = \<lfloor>x\<rfloor>; d = x - of_int f
      in if d < 1 / 2 then f
         else if 1 / 2 < d then f + 1
         else if even f then f else f + 1)"

definition radians :: "real \<Rightarrow> real" where
  "radians d = d * (pi / 180)"

definition degrees :: "real \<Rightarrow> real" where
  "degrees r = r * (180 / pi)"

section \<open>coordinate\_utils.py\<close>

text \<open>
  \<open>2.0 ** zoom\<close> for an integer zoom: OverflowError from 1024 on, the exact power of
  two down to \<open>-1074\<close>, and \<open>0.0\<close> below.
\<close>

definition tiles_per_axis :: "int \<Rightarrow> py_error + real" where
  "tiles_per_axis zoom =
     (if 1024 \<le> zoom then Inl OverflowError
      else if zoom < - 1074 then Inr 0
      else Inr (2 powr (real_of_int zoom)))"

definition lat_lon_to_tile :: "real \<Rightarrow> real \<Rightarrow> int \<Rightarrow> py_error + int \<times> int" where
  "lat_lon_to_tile lat lon zoom =
     (let lat_rad = radians lat
      in case tiles_per_axis zoom of
           Inl e \<Rightarrow> Inl e
         | Inr n \<Rightarrow>
             (case int_of_float ((lon + 180) / 360 * n) of
                Inl e \<Rightarrow> Inl e
              | Inr x \<Rightarrow>
                  (case int_of_float ((1 - arsinh (tan lat_rad) / pi) / 2 * n) of
                     Inl e \<Rightarrow> Inl e
                   | Inr y \<Rightarrow> Inr (x, y))))"

text \<open>
  \<open>x / n\<close> and \<open>2 * y / n\<close> divide an integer by a float: an integer too large for a
  double raises OverflowError and \<open>n = 0.0\<close> raises ZeroDivisionError; \<open>math.sinh\<close>
  raises OverflowError when its result is out of range.
\<close>

definition tile_to_lat_lon :: "int \<Rightarrow> int \<Rightarrow> int \<Rightarrow> py_error + real \<times> real" where
  "tile_to_lat_lon x y zoom =
     (case tiles_per_axis zoom of
        Inl e \<Rightarrow> Inl e
      | Inr n \<Rightarrow>
          if rounds_to_inf (of_int x) then Inl OverflowError
          else if n = 0 then Inl ZeroDivisionError
          else if rounds_to_inf (of_int (2 * y)) then Inl OverflowError
          else if rounds_to_inf (sinh (pi * (1 - 2 * of_int y / n))) then Inl OverflowError
          else (let lon = of_int x / n * 360 - 180;
                    lat_rad = arctan (sinh (pi * (1 - 2 * of_int y / n)));
                    lat = degrees lat_rad
                in Inr (lat, lon)))"

definition earth_radius :: real where
  "earth_radius = 6378137"

text \<open>
  The division by \<open>R * cos(radians(lat))\<close> raises ZeroDivisionError when the divisor is
  zero; over the reals that is the case exactly at the poles.
\<close>

definition meters_to_lat_lon_offset :: "real \<Rightarrow> real \<Rightarrow> real \<Rightarrow> py_error + real \<times> real" where
  "meters_to_lat_lon_offset lat dx_m dy_m =
     (let dlat_rad = dy_m / earth_radius;
          c = earth_radius * cos (radians lat)
      in if c = 0 then Inl ZeroDivisionError
         else Inr (degrees dlat_rad, degrees (dx_m / c)))"

record bounding_box =
  min_lat :: real
  max_lat :: real
  min_lon :: real
  max_lon :: real

definition calculate_bounding_box ::
  "real \<Rightarrow> real \<Rightarrow> real \<Rightarrow> real \<Rightarrow> py_error + bounding_box" where
  "calculate_bounding_box center_lat center_lon width_m height_m =
     (case meters_to_lat_lon_offset center_lat (width_m / 2) (height_m / 2) of
        Inl e \<Rightarrow> Inl e
      | Inr (dlat, dlon) \<Rightarrow>
          Inr \<lparr>min_lat = center_lat - dlat, max_lat = center_lat + dlat,
               min_lon = center_lon - dlon, max_lon = center_lon + dlon\<rparr>)"

text \<open>
  \<open>width_m / image_size\<close> raises ZeroDivisionError on a zero divisor. The target
  resolution is a float: when the quotient rounds to zero the next division raises
  ZeroDivisionError, and when it rounds to an infinity the next quotient is zero.
  \<open>math.log2\<close> raises ValueError on an argument that is zero or negative. When the
  quotient under \<open>math.log2\<close> rounds to infinity so does the logarithm, and \<open>round\<close>
  raises OverflowError on it.
\<close>

definition calculate_optimal_zoom :: "real \<Rightarrow> real \<Rightarrow> real \<Rightarrow> py_error + int" where
  "calculate_optimal_zoom width_m image_size lat =
     (let meters_per_pixel_zoom0 = 156543.03392 * cos (radians lat)
      in if image_size = 0 then Inl ZeroDivisionError
         else let target_meters_per_pixel = width_m / image_size
              in if rounds_to_zero target_meters_per_pixel then Inl ZeroDivisionError
                 else if rounds_to_inf target_meters_per_pixel then Inl ValueError
                 else let q = meters_per_pixel_zoom0 / target_meters_per_pixel
                      in if q \<le> 0 \<or> rounds_to_zero q then Inl ValueError
                         else if rounds_to_inf q then Inl OverflowError
                         else Inr (max 0 (min 19 (py_round (log 2 q)))))"

record tile_bounds =
  min_tile_x :: int
  max_tile_x :: int
  min_tile_y :: int
  max_tile_y :: int
  zoom :: int

definition get_tile_bounds ::
  "real \<Rightarrow> real \<Rightarrow> real \<Rightarrow> real \<Rightarrow> int \<Rightarrow> int \<Rightarrow> py_error + tile_bounds" where
  "get_tile_bounds center_lat center_lon width_m height_m z padding =
     (case calculate_bounding_box center_lat center_lon width_m height_m of
        Inl e \<Rightarrow> Inl e
      | Inr bbox \<Rightarrow>
          (case lat_lon_to_tile (min_lat bbox) (min_lon bbox) z of
             Inl e \<Rightarrow> Inl e
           | Inr (mn_x, mx_y) \<Rightarrow>
               (case lat_lon_to_tile (max_lat bbox) (max_lon bbox) z of
                  Inl e \<Rightarrow> Inl e
                | Inr (mx_x, mn_y) \<Rightarrow>
                    Inr \<lparr>min_tile_x = mn_x - padding, max_tile_x = mx_x + padding,
                         min_tile_y = mn_y - padding, max_tile_y = mx_y + padding,
                         zoom = z\<rparr>)))"

section \<open>Strings, paths and ranges\<close>

fun digits_of_nat :: "nat \<Rightarrow> string" where
  "digits_of_nat n =
     (if n < 10 then [char_of (48 + n)]
      else digits_of_nat (n div 10) @ [char_of (48 + n mod 10)])"

declare digits_of_nat.simps [simp del]

text \<open>\<open>str(i)\<close> for an integer.\<close>

definition py_str :: "int \<Rightarrow> string" where
  "py_str i = (if i < 0 then CHR ''-'' # digits_of_nat (nat (- i)) else digits_of_nat (nat i))"

text \<open>
  A path is the list of the components handed to \<open>os.path.join\<close>.
\<close>

type_synonym path = "string list"

text \<open>\<open>range(start, stop)\<close> and \<open>range(start, stop, step)\<close>; a zero step raises ValueError.\<close>

definition py_range2 :: "int \<Rightarrow> int \<Rightarrow> int list" where
  "py_range2 start stop = [start..stop - 1]"

definition py_range3 :: "int \<Rightarrow> int \<Rightarrow> int \<Rightarrow> py_error + int list" where
  "py_range3 start stop step =
     (if step = 0 then Inl ValueError
      else if 0 < step
        then Inr (map (\<lambda>k. start + int k * step) [0..<nat ((stop - start + step - 1) div step)])
        else Inr (map (\<lambda>k. start + int k * step) [0..<nat ((start - stop - step - 1) div (- step))]))"

section \<open>Images (the PIL operations the code calls)\<close>

datatype color = L nat | RGB nat nat nat | RGBA nat nat nat nat

text \<open>
  An image has a mode, a size and a pixel at every coordinate inside it. PIL opens an
  image lazily: \<open>img_loads\<close> tells whether its pixel data decodes when an operation
  first needs it (a truncated download opens, and fails later).
\<close>

record image =
  img_mode :: string
  img_width :: int
  img_height :: int
  img_pixel :: "int \<Rightarrow> int \<Rightarrow> color"
  img_loads :: bool

text \<open>\<open>Image.new(mode, size, color)\<close>; a negative size raises ValueError.\<close>

definition image_new :: "string \<Rightarrow> int \<times> int \<Rightarrow> color \<Rightarrow> py_error + image" where
  "image_new mode sz c =
     (if fst sz < 0 \<or> snd sz < 0 then Inl ValueError
      else Inr \<lparr>img_mode = mode, img_width = fst sz, img_height = snd sz,
                img_pixel = (\<lambda>i j. c), img_loads = True\<rparr>)"

fun to_rgb :: "color \<Rightarrow> color" where
  "to_rgb (L v) = RGB v v v"
| "to_rgb (RGB r g b) = RGB r g b"
| "to_rgb (RGBA r g b a) = RGB r g b"

fun to_rgba :: "color \<Rightarrow> color" where
  "to_rgba (L v) = RGBA v v v 255"
| "to_rgba (RGB r g b) = RGBA r g b 255"
| "to_rgba (RGBA r g b a) = RGBA r g b a"

text \<open>\<open>img.convert(mode)\<close> for the two target modes the code asks for.\<close>

definition image_convert :: "image \<Rightarrow> string \<Rightarrow> py_error + image" where
  "image_convert img mode =
     (if \<not> img_loads img then Inl OSError
      else if mode = ''RGB'' then Inr (img\<lparr>img_mode := ''RGB'', img_pixel := (\<lambda>i j. to_rgb (img_pixel img i j))\<rparr>)
      else if mode = ''RGBA'' then Inr (img\<lparr>img_mode := ''RGBA'', img_pixel := (\<lambda>i j. to_rgba (img_pixel img i j))\<rparr>)
      else Inl ValueError)"

text \<open>
  \<open>canvas.paste(tile, (x, y))\<close>: the tile's pixels replace the canvas's in the box at
  the offset, clipped to the canvas.
\<close>

definition image_paste :: "image \<Rightarrow> image \<Rightarrow> int \<times> int \<Rightarrow> py_error + image" where
  "image_paste canvas tile offset =
     (if \<not> img_loads tile then Inl OSError
      else Inr (canvas\<lparr>img_pixel := (\<lambda>i j.
             if 0 \<le> i \<and> i < img_width canvas \<and> 0 \<le> j \<and> j < img_height canvas \<and>
                fst offset \<le> i \<and> i < fst offset + img_width tile \<and>
                snd offset \<le> j \<and> j < snd offset + img_height tile
             then img_pixel tile (i - fst offset) (j - snd offset)
             else img_pixel canvas i j)\<rparr>))"

text \<open>
  PIL hands a size to its C layer as two C ints: a side outside the range of a 32-bit
  int raises OverflowError. \<open>MAX_IMAGE_PIXELS\<close> is PIL's own bound on the pixel count
  of an image of reasonable size; the memory an image of at most that many pixels takes
  is assumed to be there.
\<close>

definition c_int_overflow :: "int \<Rightarrow> bool" where
  "c_int_overflow k \<longleftrightarrow> k < - (2 ^ 31) \<or> 2 ^ 31 \<le> k"

definition MAX_IMAGE_PIXELS :: int where
  "MAX_IMAGE_PIXELS = 89478485"

text \<open>
  \<open>img.resize(size, LANCZOS)\<close>: the result has the requested size; its pixels are
  those the resampling filter computes, which is a parameter here. A size below one
  pixel raises ValueError.
\<close>

type_synonym resampler = "image \<Rightarrow> int \<times> int \<Rightarrow> int \<Rightarrow> int \<Rightarrow> color"

definition image_resize :: "resampler \<Rightarrow> image \<Rightarrow> int \<times> int \<Rightarrow> py_error + image" where
  "image_resize lanczos img sz =
     (if c_int_overflow (fst sz) \<or> c_int_overflow (snd sz) then Inl OverflowError
      else if fst sz < 1 \<or> snd sz < 1 then Inl ValueError
      else Inr (img\<lparr>img_width := fst sz, img_height := snd sz,
                     img_pixel := lanczos img sz\<rparr>))"

section \<open>tile\_fetcher.py\<close>

datatype url_part = Lit string | Z | X | Y

fun format_part :: "int \<Rightarrow> int \<Rightarrow> int \<Rightarrow> url_part \<Rightarrow> string" where
  "format_part z x y (Lit s) = s"
| "format_part z x y Z = py_str z"
| "format_part z x y X = py_str x"
| "format_part z x y Y = py_str y"

record provider_config =
  pc_name :: string
  pc_url :: "url_part list"
  pc_max_zoom :: int
  pc_attribution :: string
  pc_tile_size :: int

definition PROVIDERS :: "(string \<times> provider_config) list" where
  "PROVIDERS =
     [(''esri'',
       \<lparr>pc_name = ''Esri World Imagery'',
        pc_url = [Lit ''https://server.arcgisonline.com/ArcGIS/rest/services/World_Imagery/MapServer/tile/'',
                  Z, Lit ''/'', Y, Lit ''/'', X],
        pc_max_zoom = 19,
        pc_attribution = ''Esri, DigitalGlobe, GeoEye, Earthstar Geographics, CNES/Airbus DS, USDA, USGS, AeroGRID, IGN, and the GIS User Community'',
        pc_tile_size = 256\<rparr>),
      (''osm'',
       \<lparr>pc_name = ''OpenStreetMap'',
        pc_url = [Lit ''https://tile.openstreetmap.org/'', Z, Lit ''/'', X, Lit ''/'', Y, Lit ''.png''],
        pc_max_zoom = 19,
        pc_attribution = ''OpenStreetMap contributors'',
        pc_tile_size = 256\<rparr>),
      (''usgs'',
       \<lparr>pc_name = ''USGS Imagery'',
        pc_url = [Lit ''https://basemap.nationalmap.gov/arcgis/rest/services/USGSImageryOnly/MapServer/tile/'',
                  Z, Lit ''/'', Y, Lit ''/'', X],
        pc_max_zoom = 16,
        pc_attribution = ''USGS'',
        pc_tile_size = 256\<rparr>)]"

type_synonym bytes = "nat list"

datatype http_result = Timeout | TransportError | Response int bytes

text \<open>
  The services the fetcher calls, as black boxes: whether \<open>os.makedirs\<close> raises on a
  directory, what the \<open>k\<close>-th HTTP GET of the run returns for a URL, what
  \<open>Image.open\<close> makes of a byte string (\<open>None\<close> when it raises), and the bytes
  \<open>img.save(path, 'PNG')\<close> writes (\<open>None\<close> when it raises).
\<close>

record env =
  makedirs_fails :: "path \<Rightarrow> bool"
  http_get :: "nat \<Rightarrow> string \<Rightarrow> http_result"
  image_open :: "bytes \<Rightarrow> image option"
  save_png :: "image \<Rightarrow> path \<Rightarrow> bytes option"

text \<open>The state the fetcher changes: the files on disk and the GET requests issued.\<close>

record world =
  files :: "path \<rightharpoonup> bytes"
  requests :: "string list"

record tile_fetcher =
  provider :: string
  provider_cfg :: provider_config
  cache_dir :: string

text \<open>
  \<open>TileFetcher.__init__\<close>: an unknown provider raises ValueError; then the cache
  directory is created, outside any \<open>try\<close>.
\<close>

definition tile_fetcher_init :: "env \<Rightarrow> string \<Rightarrow> string \<Rightarrow> py_error + tile_fetcher" where
  "tile_fetcher_init e prov cdir =
     (case map_of PROVIDERS prov of
        None \<Rightarrow> Inl ValueError
      | Some cfg \<Rightarrow>
          if makedirs_fails e [cdir] then Inl OSError
          else Inr \<lparr>provider = prov, provider_cfg = cfg, cache_dir = cdir\<rparr>)"

definition get_cache_path :: "env \<Rightarrow> tile_fetcher \<Rightarrow> int \<Rightarrow> int \<Rightarrow> int \<Rightarrow> py_error + path" where
  "get_cache_path e tf z x y =
     (let zoom_dir = [cache_dir tf, provider tf, py_str z, py_str x]
      in if makedirs_fails e zoom_dir then Inl OSError
         else Inr (zoom_dir @ [py_str y @ ''.png'']))"

definition get_tile_url :: "tile_fetcher \<Rightarrow> int \<Rightarrow> int \<Rightarrow> int \<Rightarrow> string" where
  "get_tile_url tf z x y = concat (map (format_part z x y) (pc_url (provider_cfg tf)))"

text \<open>The first \<open>try\<close> of \<open>fetch_tile\<close>: \<open>Image.open(cache_path)\<close>, then \<open>img.copy()\<close>.\<close>

definition load_cached :: "env \<Rightarrow> world \<Rightarrow> path \<Rightarrow> image option" where
  "load_cached e w cache_path =
     (case files w cache_path of
        None \<Rightarrow> None
      | Some b \<Rightarrow>
          (case image_open e b of
             None \<Rightarrow> None
           | Some img \<Rightarrow> if img_loads img then Some img else None))"

text \<open>The inner \<open>try\<close>: \<open>img.save(cache_path, 'PNG')\<close>; a failure is logged and dropped.\<close>

definition save_to_cache :: "env \<Rightarrow> world \<Rightarrow> image \<Rightarrow> path \<Rightarrow> world" where
  "save_to_cache e w img cache_path =
     (if \<not> img_loads img then w
      else case save_png e img cache_path of
             None \<Rightarrow> w
           | Some b \<Rightarrow> w\<lparr>files := (files w)(cache_path \<mapsto> b)\<rparr>)"

definition fetch_tile ::
  "env \<Rightarrow> tile_fetcher \<Rightarrow> world \<Rightarrow> int \<Rightarrow> int \<Rightarrow> int \<Rightarrow> bool \<Rightarrow> (py_error + image option) \<times> world" where
  "fetch_tile e tf w z x y use_cache =
     (case get_cache_path e tf z x y of
        Inl err \<Rightarrow> (Inl err, w)
      | Inr cache_path \<Rightarrow>
          (case (if use_cache \<and> files w cache_path \<noteq> None
                 then load_cached e w cache_path else None) of
             Some img \<Rightarrow> (Inr (Some img), w)
           | None \<Rightarrow>
               (let url = get_tile_url tf z x y;
                    w1 = w\<lparr>requests := requests w @ [url]\<rparr>
                in case http_get e (length (requests w)) url of
                     Timeout \<Rightarrow> (Inr None, w1)
                   | TransportError \<Rightarrow> (Inr None, w1)
                   | Response status content \<Rightarrow>
                       if status = 200
                       then (case image_open e content of
                               None \<Rightarrow> (Inr None, w1)
                             | Some img \<Rightarrow>
                                 (Inr (Some img),
                                  if use_cache then save_to_cache e w1 img cache_path else w1))
                       else (Inr None, w1))))"

type_synonym tiles = "((int \<times> int) \<times> image) list"

text \<open>The inner loop of \<open>fetch_tiles\<close>, over \<open>y\<close>, and the outer one, over \<open>x\<close>.\<close>

fun fetch_ys ::
  "env \<Rightarrow> tile_fetcher \<Rightarrow> int \<Rightarrow> int \<Rightarrow> int list \<Rightarrow> tiles \<Rightarrow> world \<Rightarrow> (py_error + tiles) \<times> world" where
  "fetch_ys e tf z x [] ts w = (Inr ts, w)"
| "fetch_ys e tf z x (y # ys) ts w =
     (case fetch_tile e tf w z x y True of
        (Inl err, w') \<Rightarrow> (Inl err, w')
      | (Inr (Some img), w') \<Rightarrow> fetch_ys e tf z x ys (AList.update (x, y) img ts) w'
      | (Inr None, w') \<Rightarrow> fetch_ys e tf z x ys ts w')"

fun fetch_xs ::
  "env \<Rightarrow> tile_fetcher \<Rightarrow> int \<Rightarrow> int list \<Rightarrow> int list \<Rightarrow> tiles \<Rightarrow> world \<Rightarrow> (py_error + tiles) \<times> world" where
  "fetch_xs e tf z [] ys ts w = (Inr ts, w)"
| "fetch_xs e tf z (x # xs) ys ts w =
     (case fetch_ys e tf z x ys ts w of
        (Inl err, w') \<Rightarrow> (Inl err, w')
      | (Inr ts', w') \<Rightarrow> fetch_xs e tf z xs ys ts' w')"

definition fetch_tiles ::
  "env \<Rightarrow> tile_fetcher \<Rightarrow> world \<Rightarrow> tile_bounds \<Rightarrow> (py_error + tiles) \<times> world" where
  "fetch_tiles e tf w tb =
     fetch_xs e tf (zoom tb)
       (py_range2 (min_tile_x tb) (max_tile_x tb + 1))
       (py_range2 (min_tile_y tb) (max_tile_y tb + 1)) [] w"

text \<open>
  For stating what a batch returns: the tiles of a rectangle in the order the loops
  visit them, and the outcome of each tile's fetch in the state the batch has reached.
\<close>

definition rect_keys :: "tile_bounds \<Rightarrow> (int \<times> int) list" where
  "rect_keys tb =
     concat (map (\<lambda>x. map (\<lambda>y. (x, y)) (py_range2 (min_tile_y tb) (max_tile_y tb + 1)))
                 (py_range2 (min_tile_x tb) (max_tile_x tb + 1)))"

fun tile_outcomes ::
  "env \<Rightarrow> tile_fetcher \<Rightarrow> int \<Rightarrow> world \<Rightarrow> (int \<times> int) list \<Rightarrow>
     ((int \<times> int) \<times> image option) list \<times> world" where
  "tile_outcomes e tf z w [] = ([], w)"
| "tile_outcomes e tf z w (k # ks) =
     (let r = fetch_tile e tf w z (fst k) (snd k) True;
          rest = tile_outcomes e tf z (snd r) ks
      in ((k, case fst r of Inl err \<Rightarrow> None | Inr i \<Rightarrow> i) # fst rest, snd rest))"

definition failed_count :: "((int \<times> int) \<times> image option) list \<Rightarrow> nat" where
  "failed_count rs = length (filter (\<lambda>r. snd r = None) rs)"

definition fetched :: "((int \<times> int) \<times> image option) list \<Rightarrow> tiles" where
  "fetched rs = concat (map (\<lambda>r. case snd r of None \<Rightarrow> [] | Some img \<Rightarrow> [(fst r, img)]) rs)"

section \<open>image\_stitcher.py\<close>

record image_stitcher =
  tile_size :: int

text \<open>One pass of the paste loop: the \<open>try\<close> skips a tile whose conversion or paste raises.\<close>

definition place_tile ::
  "image_stitcher \<Rightarrow> int \<Rightarrow> int \<Rightarrow> image \<times> nat \<Rightarrow> (int \<times> int) \<times> image \<Rightarrow> image \<times> nat" where
  "place_tile st min_x min_y acc entry =
     (let canvas = fst acc; placed_count = snd acc;
          tile_x = fst (fst entry); tile_y = snd (fst entry); tile_img = snd entry;
          canvas_x = (tile_x - min_x) * tile_size st;
          canvas_y = (tile_y - min_y) * tile_size st
      in case (if img_mode tile_img \<noteq> ''RGB'' then image_convert tile_img ''RGB''
               else Inr tile_img) of
           Inl err \<Rightarrow> (canvas, placed_count)
         | Inr rgb \<Rightarrow>
             (case image_paste canvas rgb (canvas_x, canvas_y) of
                Inl err \<Rightarrow> (canvas, placed_count)
              | Inr canvas' \<Rightarrow> (canvas', placed_count + 1)))"

text \<open>The canvas of \<open>stitch_tiles\<close> before the resize: created, then filled from the tiles.\<close>

definition build_canvas :: "image_stitcher \<Rightarrow> tiles \<Rightarrow> tile_bounds \<Rightarrow> py_error + image" where
  "build_canvas st ts tb =
     (let min_x = min_tile_x tb; max_x = max_tile_x tb;
          min_y = min_tile_y tb; max_y = max_tile_y tb;
          tiles_wide = max_x - min_x + 1;
          tiles_high = max_y - min_y + 1;
          canvas_width = tiles_wide * tile_size st;
          canvas_height = tiles_high * tile_size st
      in case image_new ''RGB'' (canvas_width, canvas_height) (RGB 200 200 200) of
           Inl err \<Rightarrow> Inl err
         | Inr canvas \<Rightarrow> Inr (fst (foldl (place_tile st min_x min_y) (canvas, 0) ts)))"

text \<open>
  \<open>stitch_tiles\<close>: the canvas, then the resize when the sizes differ. \<open>Image.new\<close>
  rejects a negative side with ValueError before it reaches the C layer, and the C
  layer raises OverflowError on a side that does not fit a C int.
\<close>

definition stitch_tiles ::
  "resampler \<Rightarrow> image_stitcher \<Rightarrow> tiles \<Rightarrow> tile_bounds \<Rightarrow> int \<times> int \<Rightarrow> py_error + image" where
  "stitch_tiles lanczos st ts tb output_size =
     (let canvas_width = (max_tile_x tb - min_tile_x tb + 1) * tile_size st;
          canvas_height = (max_tile_y tb - min_tile_y tb + 1) * tile_size st
      in if 0 \<le> canvas_width \<and> 0 \<le> canvas_height \<and>
            (c_int_overflow canvas_width \<or> c_int_overflow canvas_height)
         then Inl OverflowError
         else case build_canvas st ts tb of
                Inl err \<Rightarrow> Inl err
              | Inr canvas \<Rightarrow>
                  if (canvas_width, canvas_height) \<noteq> output_size
                  then image_resize lanczos canvas output_size
                  else Inr canvas)"

text \<open>\<open>draw.line\<close> of width 1 down a column and along a row of the overlay.\<close>

definition draw_vline :: "image \<Rightarrow> int \<Rightarrow> color \<Rightarrow> image" where
  "draw_vline img x c =
     img\<lparr>img_pixel := (\<lambda>i j. if i = x \<and> 0 \<le> j \<and> j < img_height img then c else img_pixel img i j)\<rparr>"

definition draw_hline :: "image \<Rightarrow> int \<Rightarrow> color \<Rightarrow> image" where
  "draw_hline img y c =
     img\<lparr>img_pixel := (\<lambda>i j. if j = y \<and> 0 \<le> i \<and> i < img_width img then c else img_pixel img i j)\<rparr>"

text \<open>\<open>Image.alpha_composite\<close>, with the blend of two pixels as a parameter.\<close>

definition alpha_composite :: "(color \<Rightarrow> color \<Rightarrow> color) \<Rightarrow> image \<Rightarrow> image \<Rightarrow> py_error + image" where
  "alpha_composite blend base over =
     (if img_mode base \<noteq> ''RGBA'' \<or> img_mode over \<noteq> ''RGBA'' \<or>
         img_width base \<noteq> img_width over \<or> img_height base \<noteq> img_height over
      then Inl ValueError
      else Inr (base\<lparr>img_pixel := (\<lambda>i j. blend (img_pixel base i j) (img_pixel over i j))\<rparr>))"

definition add_grid_overlay ::
  "(color \<Rightarrow> color \<Rightarrow> color) \<Rightarrow> image \<Rightarrow> real \<Rightarrow> real \<Rightarrow> nat \<times> nat \<times> nat \<Rightarrow> nat \<Rightarrow> py_error + image" where
  "add_grid_overlay blend img grid_spacing_m meters_per_pixel col alpha =
     (case image_new ''RGBA'' (img_width img, img_height img) (RGBA 0 0 0 0) of
        Inl err \<Rightarrow> Inl err
      | Inr overlay \<Rightarrow>
          if meters_per_pixel = 0 then Inl ZeroDivisionError
          else
            (let width = img_width img; height = img_height img;
                 grid_spacing_px = py_int (grid_spacing_m / meters_per_pixel);
                 fill = RGBA (fst col) (fst (snd col)) (snd (snd col)) alpha
             in case py_range3 0 width grid_spacing_px of
                  Inl err \<Rightarrow> Inl err
                | Inr xs \<Rightarrow>
                    (let overlay1 = foldl (\<lambda>ov x. draw_vline ov x fill) overlay xs
                     in case py_range3 0 height grid_spacing_px of
                          Inl err \<Rightarrow> Inl err
                        | Inr ys \<Rightarrow>
                            (let overlay2 = foldl (\<lambda>ov y. draw_hline ov y fill) overlay1 ys
                             in case (if img_mode img \<noteq> ''RGBA'' then image_convert img ''RGBA''
                                      else Inr img) of
                                  Inl err \<Rightarrow> Inl err
                                | Inr rgba \<Rightarrow> alpha_composite blend rgba overlay2))))"

section \<open>An example environment\<close>

text \<open>
  A concrete tile, fetcher and environment on which the theorems below are instantiated:
  directories can be created, the second GET of a run times out and every other one
  answers 200 with a body that decodes to the tile, and saving writes a file that decodes
  to the tile again.
\<close>

definition gray_tile :: image where
  "gray_tile = \<lparr>img_mode = ''RGB'', img_width = 256, img_height = 256,
                 img_pixel = (\<lambda>i j. RGB 90 90 90), img_loads = True\<rparr>"

definition demo_env :: env where
  "demo_env = \<lparr>makedirs_fails = (\<lambda>p. False),
                http_get = (\<lambda>k url. if k = 1 then Timeout else Response 200 [1]),
                image_open = (\<lambda>b. if b = [1] \<or> b = [2] then Some gray_tile else None),
                save_png = (\<lambda>img p. Some [2])\<rparr>"

definition demo_fetcher :: tile_fetcher where
  "demo_fetcher = \<lparr>provider = ''osm'',
                    provider_cfg = \<lparr>pc_name = ''OpenStreetMap'',
                      pc_url = [Lit ''https://tile.openstreetmap.org/'', Z, Lit ''/'', X, Lit ''/'', Y, Lit ''.png''],
                      pc_max_zoom = 19, pc_attribution = ''OpenStreetMap contributors'',
                      pc_tile_size = 256\<rparr>,
                    cache_dir = ''/tmp/map_tiles''\<rparr>"

text \<open>
  The same environment with a cache root that exists and below which nothing can be
  created (a directory owned by another user, a full disk), and one in which no
  directory can be created at all.
\<close>

definition shared_cache_env :: env where
  "shared_cache_env = demo_env\<lparr>makedirs_fails := (\<lambda>p. p \<noteq> [''/tmp/map_tiles''])\<rparr>"

definition unwritable_env :: env where
  "unwritable_env = demo_env\<lparr>makedirs_fails := (\<lambda>p. True)\<rparr>"

definition fresh_world :: world where
  "fresh_world = \<lparr>files = Map.empty, requests = []\<rparr>"

definition demo_bounds :: tile_bounds where
  "demo_bounds = \<lparr>min_tile_x = 0, max_tile_x = 1, min_tile_y = 0, max_tile_y = 0, zoom = 1\<rparr>"

text \<open>
  A row of \<open>2^23\<close> tiles at zoom 23, whose canvas is \<open>2^31\<close> pixels wide, and a
  resampling filter to run the stitcher with (nearest neighbour on a fixed ratio).
\<close>

definition wide_bounds :: tile_bounds where
  "wide_bounds = \<lparr>min_tile_x = 0, max_tile_x = 2 ^ 23 - 1, min_tile_y = 0, max_tile_y = 0, zoom = 23\<rparr>"

definition demo_resampler :: resampler where
  "demo_resampler img sz i j = img_pixel img (i div 2) (j div 4)"

section \<open>Truncation, rounding and angles\<close>

lemma py_int_mono:
  assumes "x \<le> y" shows "py_int x \<le> py_int y"
proof (cases "0 \<le> x")
  case True
  then show ?thesis using assms by (simp add: py_int_def floor_mono)
next
  case neg: False
  show ?thesis
  proof (cases "0 \<le> y")
    case True
    have "\<lceil>x\<rceil> \<le> 0" using neg by (simp add: ceiling_le_iff)
    moreover have "0 \<le> \<lfloor>y\<rfloor>" using True by simp
    ultimately have "\<lceil>x\<rceil> \<le> \<lfloor>y\<rfloor>" by linarith
    then show ?thesis using neg True by (simp add: py_int_def)
  next
    case False
    then show ?thesis using neg assms by (simp add: py_int_def ceiling_mono)
  qed
qed

lemma in_range_not_zero:
  assumes "1 / 2 ^ 1074 \<le> \<bar>v\<bar>" shows "\<not> rounds_to_zero v"
proof -
  have "(1::real) / 2 ^ 1075 < 1 / 2 ^ 1074" by simp
  then have "1 / 2 ^ 1075 < \<bar>v\<bar>" using assms by (rule less_le_trans)
  then show ?thesis unfolding rounds_to_zero_def by (simp only: not_le)
qed

lemma in_range_not_inf:
  assumes "\<bar>v\<bar> \<le> 2 ^ 1023" shows "\<not> rounds_to_inf v"
proof -
  have "(2::real) ^ 1023 < 2 ^ 1024 - 2 ^ 970" by simp
  with assms have "\<bar>v\<bar> < 2 ^ 1024 - 2 ^ 970" by (rule le_less_trans)
  then show ?thesis unfolding rounds_to_inf_def by (simp only: not_le)
qed

lemma int_of_float_in_range: "\<bar>v\<bar> \<le> 2 ^ 1023 \<Longrightarrow> int_of_float v = Inr (py_int v)"
  using in_range_not_inf [of v] by (simp add: int_of_float_def)

lemma py_int_of_int [simp]: "py_int (of_int k) = k"
  by (simp add: py_int_def)

lemma py_round_bounds: "\<lfloor>x\<rfloor> \<le> py_round x \<and> py_round x \<le> \<lfloor>x\<rfloor> + 1"
  by (simp add: py_round_def Let_def)

lemma py_round_mono:
  assumes "x \<le> y" shows "py_round x \<le> py_round y"
proof (cases "\<lfloor>x\<rfloor> = \<lfloor>y\<rfloor>")
  case True
  then have "x - of_int \<lfloor>x\<rfloor> \<le> y - of_int \<lfloor>y\<rfloor>" using assms by simp
  then show ?thesis using True by (auto simp: py_round_def Let_def)
next
  case False
  then have "\<lfloor>x\<rfloor> + 1 \<le> \<lfloor>y\<rfloor>" using floor_mono [OF assms] by linarith
  then show ?thesis using py_round_bounds [of x] py_round_bounds [of y] by linarith
qed

lemma radians_less_iff [simp]: "radians a < radians b \<longleftrightarrow> a < b"
  by (simp add: radians_def)

lemma radians_le_iff [simp]: "radians a \<le> radians b \<longleftrightarrow> a \<le> b"
  by (simp add: radians_def)

lemma radians_90: "radians 90 = pi / 2" "radians (- 90) = - (pi / 2)"
  by (simp_all add: radians_def)

lemma radians_range:
  assumes "- 90 < lat" "lat < 90"
  shows "- (pi / 2) < radians lat" "radians lat < pi / 2"
  using assms radians_less_iff [of "- 90" lat] radians_less_iff [of lat 90]
  by (simp_all only: radians_90)

lemma cos_radians_pos: "\<bar>lat\<bar> < 90 \<Longrightarrow> 0 < cos (radians lat)"
  using radians_range [of lat] by (intro cos_gt_zero_pi) linarith+

section \<open>Numerical bounds for the Mercator latitude limit\<close>

lemma cos_poly12:
  fixes x :: real
  shows "(\<Sum>m<12. cos_coeff m * x ^ m) = 1 - x^2/2 + x^4/24 - x^6/720 + x^8/40320 - x^10/3628800"
  by (simp add: lessThan_nat_numeral lessThan_Suc cos_coeff_def fact_numeral)

lemma cos_lower_poly:
  fixes x :: real assumes "0 < x"
  shows "1 - x^2/2 + x^4/24 - x^6/720 + x^8/40320 - x^10/3628800 - x ^ 12 / 479001600 \<le> cos x"
proof -
  obtain t where t: "cos x = (\<Sum>m<12. cos_coeff m * x ^ m) + (cos (t + 1/2 * real (12::nat) * pi) / fact 12) * x ^ 12"
    using Maclaurin_cos_expansion2 [OF assms, of 12] by auto
  have "- 1 \<le> cos (t + 1/2 * real (12::nat) * pi)" by (rule cos_ge_minus_one)
  then have "- 1 * (x ^ 12 / fact 12) \<le> cos (t + 1/2 * real (12::nat) * pi) * (x ^ 12 / fact 12)"
    by (intro mult_right_mono) simp_all
  with t show ?thesis unfolding cos_poly12 by (simp add: fact_numeral)
qed

lemma cos_157075_pos: "0 < cos (157075 / 100000 :: real)"
proof -
  define x :: real where "x = 157075 / 100000"
  have "0 < 1 - x^2/2 + x^4/24 - x^6/720 + x^8/40320 - x^10/3628800 - x ^ 12 / 479001600"
    unfolding x_def by (simp add: power_divide)
  also have "\<dots> \<le> cos x" by (rule cos_lower_poly) (simp add: x_def)
  finally show ?thesis unfolding x_def .
qed

lemma pi_gt_31415: "31415 / 10000 < pi"
proof (rule ccontr)
  assume "\<not> 31415 / 10000 < pi"
  then have le: "pi / 2 \<le> 157075 / 100000" by simp
  have "cos (157075 / 100000) \<le> cos (pi / 2)"
    by (rule cos_monotone_0_pi_le) (use le pi_ge_two in simp_all)
  with cos_157075_pos show False by simp
qed

lemma sin_poly5:
  fixes x :: real
  shows "(\<Sum>m<5. sin_coeff m * x ^ m) = x - x^3/6"
  by (simp add: lessThan_nat_numeral lessThan_Suc sin_coeff_def fact_numeral)

lemma sin_lower_poly:
  fixes x :: real assumes "0 < x"
  shows "x - x^3/6 - x^5/120 \<le> sin x"
proof -
  obtain t where t: "sin x = (\<Sum>m<5. sin_coeff m * x ^ m) + (sin (t + 1/2 * real (5::nat) * pi) / fact 5) * x ^ 5"
    using Maclaurin_sin_expansion3 [OF _ assms, of 5] by auto
  have "- 1 \<le> sin (t + 1/2 * real (5::nat) * pi)" by (rule sin_ge_minus_one)
  then have "- 1 * (x ^ 5 / fact 5) \<le> sin (t + 1/2 * real (5::nat) * pi) * (x ^ 5 / fact 5)"
    using assms by (intro mult_right_mono) simp_all
  with t show ?thesis unfolding sin_poly5 by (simp add: fact_numeral)
qed

lemma cos_poly6:
  fixes x :: real
  shows "(\<Sum>m<6. cos_coeff m * x ^ m) = 1 - x^2/2 + x^4/24"
  by (simp add: lessThan_nat_numeral lessThan_Suc cos_coeff_def fact_numeral)

lemma cos_upper_poly:
  fixes x :: real assumes "0 < x"
  shows "cos x \<le> 1 - x^2/2 + x^4/24 + x^6/720"
proof -
  obtain t where t: "cos x = (\<Sum>m<6. cos_coeff m * x ^ m) + (cos (t + 1/2 * real (6::nat) * pi) / fact 6) * x ^ 6"
    using Maclaurin_cos_expansion2 [OF assms, of 6] by auto
  have "cos (t + 1/2 * real (6::nat) * pi) \<le> 1" by (rule cos_le_one)
  then have "cos (t + 1/2 * real (6::nat) * pi) * (x ^ 6 / fact 6) \<le> 1 * (x ^ 6 / fact 6)"
    using assms by (intro mult_right_mono) simp_all
  with t show ?thesis unfolding cos_poly6 by (simp add: fact_numeral)
qed

lemma exp_poly13:
  fixes x :: real
  shows "(\<Sum>m<13. x ^ m / fact m) = 1 + x + x^2/2 + x^3/6 + x^4/24 + x^5/120 + x^6/720 + x^7/5040
     + x^8/40320 + x^9/362880 + x^10/3628800 + x^11/39916800 + x^12/479001600"
  by (simp add: lessThan_nat_numeral lessThan_Suc fact_numeral)

lemma exp_lower_poly:
  fixes x :: real assumes "0 \<le> x"
  shows "1 + x + x^2/2 + x^3/6 + x^4/24 + x^5/120 + x^6/720 + x^7/5040
     + x^8/40320 + x^9/362880 + x^10/3628800 + x^11/39916800 + x^12/479001600 \<le> exp x"
proof -
  obtain t where t: "exp x = (\<Sum>m<13. x ^ m / fact m) + (exp t / fact 13) * x ^ 13"
    using Maclaurin_exp_le [of x 13] by auto
  have "0 \<le> (exp t / fact 13) * x ^ 13" using assms by simp
  with t show ?thesis unfolding exp_poly13 by linarith
qed

lemma exp_31415_lower: "23137 / 1000 \<le> exp (31415 / 10000 :: real)"
proof -
  define x :: real where "x = 31415 / 10000"
  have "23137 / 1000 \<le> 1 + x + x^2/2 + x^3/6 + x^4/24 + x^5/120 + x^6/720 + x^7/5040
     + x^8/40320 + x^9/362880 + x^10/3628800 + x^11/39916800 + x^12/479001600"
    unfolding x_def by (simp add: power_divide)
  also have "\<dots> \<le> exp x" by (rule exp_lower_poly) (simp add: x_def)
  finally show ?thesis unfolding x_def .
qed

lemma sinh_pi_lower: "115468 / 10000 < sinh pi"
proof -
  define a :: real where "a = 31415 / 10000"
  have L: "23137 / 1000 \<le> exp a" unfolding a_def by (rule exp_31415_lower)
  then have "exp (- a) \<le> 1000 / 23137"
    by (simp add: exp_minus field_simps)
  with L have "115468 / 10000 < (exp a - exp (- a)) / 2" by simp
  also have "\<dots> = sinh a" by (simp add: sinh_field_def)
  also have "\<dots> < sinh pi" using pi_gt_31415 by (simp add: a_def)
  finally show ?thesis .
qed

lemma cot_psi_upper:
  fixes p :: real
  assumes "69113 / 800000 \<le> p" "p \<le> pi / 2"
  shows "cos p < 115468 / 10000 * sin p"
proof -
  define x :: real where "x = 69113 / 800000"
  have x0: "0 < x" by (simp add: x_def)
  have c1: "cos p \<le> cos x"
    by (rule cos_monotone_0_pi_le) (use assms x0 in \<open>simp_all add: x_def\<close>)
  have s1: "sin x \<le> sin p"
    by (rule sin_monotone_2pi_le) (use assms x0 in \<open>simp_all add: x_def\<close>)
  have num: "1 - x^2/2 + x^4/24 + x^6/720 < 115468 / 10000 * (x - x^3/6 - x^5/120)"
    unfolding x_def by (simp add: power_divide)
  have "cos p \<le> 1 - x^2/2 + x^4/24 + x^6/720"
    using c1 cos_upper_poly [OF x0] by linarith
  also note num
  also have "115468 / 10000 * (x - x^3/6 - x^5/120) \<le> 115468 / 10000 * sin p"
    using sin_lower_poly [OF x0] s1 by simp
  finally show ?thesis .
qed

lemma tan_mercator_limit: "tan (radians (8505 / 100)) < sinh pi"
proof -
  define p :: real where "p = 11 * pi / 400"
  have r: "radians (8505 / 100) = pi / 2 - p"
    by (simp add: radians_def p_def field_simps)
  have p_lo: "69113 / 800000 \<le> p" using pi_gt_31415 by (simp add: p_def)
  have p_hi: "p \<le> pi / 2" by (simp add: p_def)
  have p_pos: "0 < p" by (simp add: p_def)
  have sp: "0 < sin p"
    by (rule sin_gt_zero) (use p_pos p_hi pi_gt_zero in linarith)+
  have "cos p < 115468 / 10000 * sin p" using cot_psi_upper [OF p_lo p_hi] .
  also have "\<dots> < sinh pi * sin p" using sinh_pi_lower sp by simp
  finally have "cos p / sin p < sinh pi" using sp by (simp add: field_simps)
  moreover have "tan (pi / 2 - p) = cos p / sin p"
    by (simp add: tan_def cos_diff sin_diff)
  ultimately show ?thesis unfolding r by simp
qed

section \<open>Optimal zoom\<close>

lemma sin_ge_half:
  fixes x :: real assumes "0 < x" "x \<le> 1"
  shows "x / 2 \<le> sin x"
proof -
  have x1: "0 \<le> x" using assms by simp
  have "x ^ 3 \<le> x ^ 1" "x ^ 5 \<le> x ^ 1"
    using x1 assms(2) by (intro power_decreasing; simp)+
  then have "x ^ 3 \<le> x" "x ^ 5 \<le> x" by simp_all
  then have "x / 2 \<le> x - x^3/6 - x^5/120" using x1 by linarith
  also have "\<dots> \<le> sin x" by (rule sin_lower_poly [OF assms(1)])
  finally show ?thesis .
qed

lemma cos_radians_lower:
  assumes "\<bar>lat\<bar> \<le> 90 - 1 / 2 ^ 46"
  shows "1 / 2 ^ 54 \<le> cos (radians lat)"
proof -
  define d :: real where "d = radians (1 / 2 ^ 46)"
  have d0: "0 < d" by (simp add: d_def radians_def)
  have "d \<le> 4 / 180 / 2 ^ 46" using pi_less_4 by (simp add: d_def radians_def field_simps)
  then have d1: "d \<le> 1" by simp
  have "2 / 180 / 2 ^ 46 \<le> d" using pi_ge_two by (simp add: d_def radians_def field_simps)
  then have dl: "1 / 2 ^ 53 \<le> d" by simp
  have r: "\<bar>radians lat\<bar> \<le> pi / 2 - d"
  proof -
    have "\<bar>radians lat\<bar> = radians \<bar>lat\<bar>" by (simp add: radians_def abs_mult)
    also have "\<dots> \<le> radians (90 - 1 / 2 ^ 46)" using assms by (simp only: radians_le_iff)
    also have "\<dots> = pi / 2 - d" by (simp add: d_def radians_def left_diff_distrib)
    finally show ?thesis .
  qed
  have "cos (pi / 2 - d) \<le> cos \<bar>radians lat\<bar>"
    by (rule cos_monotone_0_pi_le) (use r d0 d1 pi_ge_two in simp_all)
  then have "sin d \<le> cos (radians lat)" by (simp add: cos_diff)
  moreover have "d / 2 \<le> sin d" by (rule sin_ge_half [OF d0 d1])
  ultimately show ?thesis using dl by simp
qed

lemma calculate_optimal_zoom_value:
  assumes "0 < image_size" "\<bar>lat\<bar> \<le> 90 - 1 / 2 ^ 46"
    and "1 / 2 ^ 1000 \<le> w / image_size" "w / image_size \<le> 2 ^ 1000"
  shows "calculate_optimal_zoom w image_size lat =
           Inr (max 0 (min 19 (py_round (log 2 (156543.03392 * cos (radians lat) / (w / image_size))))))"
proof -
  define t where "t = w / image_size"
  define b :: real where "b = 156543.03392 * cos (radians lat)"
  have c: "1 / 2 ^ 54 \<le> cos (radians lat)" "cos (radians lat) \<le> 1"
    using cos_radians_lower [OF assms(2)] by simp_all
  have t: "1 / 2 ^ 1000 \<le> t" "t \<le> 2 ^ 1000" using assms by (simp_all add: t_def)
  have t0: "0 < t" using t(1) by (rule less_le_trans [rotated]) simp
  have c0: "0 \<le> cos (radians lat)" using c(1) by (rule order_trans [rotated]) simp
  have "cos (radians lat) \<le> 156543.03392 * cos (radians lat)" using c0 by simp
  then have b1: "1 / 2 ^ 54 \<le> b" unfolding b_def using c(1) by (rule order_trans [rotated])
  have "156543.03392 * cos (radians lat) \<le> 156543.03392 * 1"
    by (rule mult_left_mono [OF c(2)]) simp
  also have "\<dots> \<le> 2 ^ 18" by simp
  finally have b2: "b \<le> 2 ^ 18" unfolding b_def .
  have b0: "0 < b" using b1 by (rule less_le_trans [rotated]) simp
  have q0: "0 < b / t" using b0 t0 by simp
  have "b / t \<le> 2 ^ 18 / (1 / 2 ^ 1000)"
    using b2 t(1) b0 by (intro frac_le) simp_all
  then have q2: "b / t \<le> 2 ^ 1018" by simp
  have "(1 / 2 ^ 54) / 2 ^ 1000 \<le> b / t"
    using b1 t(2) t0 by (intro frac_le) simp_all
  then have q1: "1 / 2 ^ 1054 \<le> b / t" by simp
  have a1: "\<bar>t\<bar> = t" "\<bar>b / t\<bar> = b / t" using t0 q0 by (simp_all only: abs_of_pos)
  have "(1::real) / 2 ^ 1074 \<le> 1 / 2 ^ 1000" by simp
  then have "1 / 2 ^ 1074 \<le> \<bar>t\<bar>" unfolding a1 using t(1) by (rule order_trans)
  then have n1: "\<not> rounds_to_zero t" by (rule in_range_not_zero)
  have "(2::real) ^ 1000 \<le> 2 ^ 1023" by simp
  with t(2) have "\<bar>t\<bar> \<le> 2 ^ 1023" unfolding a1 by (rule order_trans)
  then have n2: "\<not> rounds_to_inf t" by (rule in_range_not_inf)
  have "(1::real) / 2 ^ 1074 \<le> 1 / 2 ^ 1054" by simp
  then have "1 / 2 ^ 1074 \<le> \<bar>b / t\<bar>" unfolding a1 using q1 by (rule order_trans)
  then have n3: "\<not> rounds_to_zero (b / t)" by (rule in_range_not_zero)
  have "(2::real) ^ 1018 \<le> 2 ^ 1023" by simp
  with q2 have "\<bar>b / t\<bar> \<le> 2 ^ 1023" unfolding a1 by (rule order_trans)
  then have n4: "\<not> rounds_to_inf (b / t)" by (rule in_range_not_inf)
  have i: "image_size \<noteq> 0" using assms(1) by simp
  have q: "\<not> (b / t \<le> 0 \<or> rounds_to_zero (b / t))" using q0 n3 by (simp add: not_le)
  show ?thesis
    unfolding calculate_optimal_zoom_def Let_def t_def [symmetric] b_def [symmetric]
    by (simp only: i n1 n2 q n4 if_False)
qed

text \<open>
  C5, amended. For a positive image size, a latitude between the poles that is a double
  (so at most \<open>90 - 2^-46\<close> in magnitude), and widths whose target resolution
  \<open>width_m / image_size\<close> lies between \<open>2^-1000\<close> and \<open>2^1000\<close>,
  \<open>calculate_optimal_zoom\<close> returns a zoom, the zoom lies in \<open>[0, 19]\<close>, and a larger
  width never gives a larger zoom.
\<close>

theorem calculate_optimal_zoom_monotone:
  assumes "0 < image_size" "\<bar>lat\<bar> \<le> 90 - 1 / 2 ^ 46" "w1 \<le> w2"
    and "1 / 2 ^ 1000 \<le> w1 / image_size" "w2 / image_size \<le> 2 ^ 1000"
  shows "\<exists>z1 z2. calculate_optimal_zoom w1 image_size lat = Inr z1 \<and>
                 calculate_optimal_zoom w2 image_size lat = Inr z2 \<and>
                 z2 \<le> z1 \<and> 0 \<le> z1 \<and> z1 \<le> 19 \<and> 0 \<le> z2 \<and> z2 \<le> 19"
proof -
  let ?b = "156543.03392 * cos (radians lat)"
  have le: "w1 / image_size \<le> w2 / image_size" using assms(1,3) by (simp add: divide_right_mono)
  have t1: "0 < w1 / image_size" using assms(4) by (rule less_le_trans [rotated]) simp
  have t2: "0 < w2 / image_size" using t1 le by linarith
  have "0 < cos (radians lat)"
    using cos_radians_lower [OF assms(2)] by (rule less_le_trans [rotated]) simp
  then have c: "0 < ?b" by simp
  have q2: "0 < ?b / (w2 / image_size)" using c t2 by (rule divide_pos_pos)
  have "?b / (w2 / image_size) \<le> ?b / (w1 / image_size)"
    by (rule divide_left_mono [OF le less_imp_le [OF c] mult_pos_pos [OF t2 t1]])
  then have "log 2 (?b / (w2 / image_size)) \<le> log 2 (?b / (w1 / image_size))"
    using q2 by (subst log_le_cancel_iff) (auto intro: less_le_trans)
  then have "py_round (log 2 (?b / (w2 / image_size))) \<le> py_round (log 2 (?b / (w1 / image_size)))"
    by (rule py_round_mono)
  moreover have u1: "w1 / image_size \<le> 2 ^ 1000" using le assms(5) by linarith
  moreover have u2: "1 / 2 ^ 1000 \<le> w2 / image_size" using le assms(4) by linarith
  ultimately show ?thesis
    unfolding calculate_optimal_zoom_value [OF assms(1,2,4) u1]
      calculate_optimal_zoom_value [OF assms(1,2) u2 assms(5)]
    by auto
qed

theorem calculate_optimal_zoom_monotone_witness:
  "(0::real) < 1024 \<and> \<bar>0::real\<bar> \<le> 90 - 1 / 2 ^ 46 \<and> (500::real) \<le> 1000 \<and>
   (1::real) / 2 ^ 1000 \<le> 500 / 1024 \<and> (1000::real) / 1024 \<le> 2 ^ 1000 \<and>
   (\<exists>z1 z2. calculate_optimal_zoom 500 1024 0 = Inr z1 \<and>
           calculate_optimal_zoom 1000 1024 0 = Inr z2 \<and>
           z2 \<le> z1 \<and> 0 \<le> z1 \<and> z1 \<le> 19 \<and> 0 \<le> z2 \<and> z2 \<le> 19)"
proof -
  have h: "(0::real) < 1024" "\<bar>0::real\<bar> \<le> 90 - 1 / 2 ^ 46" "(500::real) \<le> 1000"
    "(1::real) / 2 ^ 1000 \<le> 500 / 1024" "(1000::real) / 1024 \<le> 2 ^ 1000"
    by simp_all
  show ?thesis using calculate_optimal_zoom_monotone [OF h] h by blast
qed

text \<open>
  C5 as stated fails for a width so small that the target resolution leaves the range
  of a double: with \<open>image_size = 1024\<close> at the equator, the width \<open>10^-310\<close> makes
  the quotient under \<open>math.log2\<close> infinite and \<open>round\<close> raises OverflowError, and the
  width \<open>2^-1074\<close>, the smallest positive double, makes the target resolution zero and
  the division raises ZeroDivisionError. Neither call returns a zoom.
\<close>

theorem calculate_optimal_zoom_tiny_width_counterexample:
  "(0::real) < 1024 \<and> \<bar>0::real\<bar> < 90 \<and> (0::real) < 1 / 10 ^ 310 \<and> (0::real) < 1 / 2 ^ 1074 \<and>
   calculate_optimal_zoom (1 / 10 ^ 310) 1024 0 = Inl OverflowError \<and>
   calculate_optimal_zoom (1 / 2 ^ 1074) 1024 0 = Inl ZeroDivisionError"
  by (simp add: calculate_optimal_zoom_def Let_def rounds_to_zero_def rounds_to_inf_def radians_def)

section \<open>Tile indices of a point\<close>

lemma tiles_per_axis_nat:
  "0 \<le> z \<Longrightarrow> z \<le> 1023 \<Longrightarrow> tiles_per_axis z = Inr (of_int (2 ^ nat z))"
  by (simp add: tiles_per_axis_def powr_int)

lemma tiles_per_axis_range:
  assumes "tiles_per_axis z = Inr n" shows "0 \<le> n" "n \<le> 2 ^ 1023"
proof -
  have z: "z \<le> 1023" using assms by (simp add: tiles_per_axis_def split: if_splits)
  have "(2::real) powr real_of_int z \<le> 2 powr real_of_int 1023"
    using z by (intro powr_mono) simp_all
  then have "(2::real) powr real_of_int z \<le> 2 ^ 1023" by (simp add: powr_int)
  then show "0 \<le> n" "n \<le> 2 ^ 1023"
    using assms by (auto simp: tiles_per_axis_def split: if_splits)
qed

lemma tiles_per_axis_returns: "z \<le> 1023 \<Longrightarrow> \<exists>n. tiles_per_axis z = Inr n"
  by (simp add: tiles_per_axis_def)

lemma lat_lon_to_tile_Inr:
  "lat_lon_to_tile lat lon z = Inr (x, y) \<longleftrightarrow>
     (\<exists>n. tiles_per_axis z = Inr n \<and>
        \<not> rounds_to_inf ((lon + 180) / 360 * n) \<and>
        \<not> rounds_to_inf ((1 - arsinh (tan (radians lat)) / pi) / 2 * n) \<and>
        x = py_int ((lon + 180) / 360 * n) \<and>
        y = py_int ((1 - arsinh (tan (radians lat)) / pi) / 2 * n))"
  by (auto simp: lat_lon_to_tile_def Let_def int_of_float_def split: sum.splits if_splits)

lemma py_int_nonneg: "- 1 < x \<Longrightarrow> 0 \<le> py_int x"
  by (simp add: py_int_def)

lemma py_int_less: "x < of_int n \<Longrightarrow> 0 < n \<Longrightarrow> py_int x < n"
  by (simp add: py_int_def floor_less_iff) linarith

lemma mercator_monotone:
  assumes "- 90 < a" "a \<le> b" "b < 90"
  shows "arsinh (tan (radians a)) \<le> arsinh (tan (radians b))"
proof -
  have "tan (radians a) \<le> tan (radians b)"
    using assms radians_range [of a] radians_range [of b]
    by (intro tan_mono_le) simp_all
  then show ?thesis by (simp add: not_less [symmetric])
qed

lemma mercator_bound:
  assumes "- (8505 / 100) \<le> lat" "lat \<le> 8505 / 100"
  shows "- pi < arsinh (tan (radians lat))" "arsinh (tan (radians lat)) < pi"
proof -
  have up: "arsinh (tan (radians (8505 / 100))) < pi"
    using tan_mercator_limit arsinh_less_iff_real [of "tan (radians (8505 / 100))" "sinh pi"]
    by (simp add: arsinh_sinh_real)
  have "arsinh (tan (radians lat)) \<le> arsinh (tan (radians (8505 / 100)))"
    using assms by (intro mercator_monotone) simp_all
  with up show "arsinh (tan (radians lat)) < pi" by linarith
  have "arsinh (tan (radians (- (8505 / 100)))) \<le> arsinh (tan (radians lat))"
    using assms by (intro mercator_monotone) simp_all
  moreover have "radians (- (8505 / 100)) = - radians (8505 / 100)"
    by (simp add: radians_def)
  ultimately show "- pi < arsinh (tan (radians lat))" using up by simp
qed

lemma tile_row_in_range:
  assumes "- pi < a" "a < pi" "0 < n"
  shows "0 < (1 - a / pi) / 2 * n" "(1 - a / pi) / 2 * n < n"
proof -
  have "a / pi < 1" "- 1 < a / pi" using assms by (simp_all add: field_simps)
  then have "0 < (1 - a / pi) / 2" "(1 - a / pi) / 2 < 1" by simp_all
  then show "0 < (1 - a / pi) / 2 * n" "(1 - a / pi) / 2 * n < n"
    using assms(3) by simp_all
qed

text \<open>
  C2, amended. For a zoom \<open>z\<close> from 0 to 1023, a latitude in \<open>[-85.05, 85.05]\<close> and a
  longitude in \<open>[-180, 180]\<close>, \<open>lat_lon_to_tile\<close> returns a row \<open>y\<close> in \<open>[0, 2^z)\<close>
  and a column \<open>x\<close> in \<open>[0, 2^z]\<close>; the column is below \<open>2^z\<close> for every longitude up
  to \<open>180 - 2^-44\<close>, and is exactly \<open>2^z\<close>, one past the last column, at longitude 180.
  The one double between \<open>180 - 2^-44\<close> and 180 is left open: there \<open>lon + 180.0\<close>
  is rounded to \<open>360.0\<close>, which the exact sum of this model does not show.
\<close>

theorem lat_lon_to_tile_in_range:
  assumes "0 \<le> z" "z \<le> 1023"
    and "- (8505 / 100) \<le> lat" "lat \<le> 8505 / 100" "- 180 \<le> lon" "lon \<le> 180"
  shows "\<exists>x y. lat_lon_to_tile lat lon z = Inr (x, y) \<and>
           0 \<le> y \<and> y < 2 ^ nat z \<and> 0 \<le> x \<and> x \<le> 2 ^ nat z \<and>
           (lon \<le> 180 - 1 / 2 ^ 44 \<longrightarrow> x < 2 ^ nat z) \<and>
           (lon = 180 \<longrightarrow> x = 2 ^ nat z)"
proof -
  let ?N = "2 ^ nat z :: int"
  define n :: real where "n = of_int ?N"
  have tn: "tiles_per_axis z = Inr n" unfolding n_def using assms(1,2) by (rule tiles_per_axis_nat)
  have N: "0 < ?N" by simp
  have npos: "0 < n" by (simp add: n_def)
  have nmax: "n \<le> 2 ^ 1023" using tiles_per_axis_range(2) [OF tn] .
  let ?ye = "(1 - arsinh (tan (radians lat)) / pi) / 2 * n"
  let ?xe = "(lon + 180) / 360 * n"
  have y: "0 < ?ye" "?ye < n"
    using tile_row_in_range [OF mercator_bound [OF assms(3,4)] npos] by simp_all
  have "\<bar>?ye\<bar> \<le> 2 ^ 1023" using y nmax by linarith
  then have yf: "\<not> rounds_to_inf ?ye" by (rule in_range_not_inf)
  have y1: "0 \<le> py_int ?ye" using y(1) by (intro py_int_nonneg) linarith
  have y2: "py_int ?ye < ?N" using y(2) N unfolding n_def by (rule py_int_less)
  have x0: "0 \<le> ?xe" using assms(5) npos by simp
  have "(lon + 180) / 360 \<le> 1" using assms(6) by simp
  then have "?xe \<le> 1 * n" using npos by (intro mult_right_mono) simp_all
  then have xn: "?xe \<le> of_int ?N" by (simp add: n_def)
  have "\<bar>?xe\<bar> \<le> 2 ^ 1023" using x0 xn nmax unfolding n_def by linarith
  then have xf: "\<not> rounds_to_inf ?xe" by (rule in_range_not_inf)
  have x1: "0 \<le> py_int ?xe" using x0 by (intro py_int_nonneg) linarith
  have "py_int ?xe \<le> py_int (of_int ?N)" using xn by (rule py_int_mono)
  then have x4: "py_int ?xe \<le> ?N" by (simp only: py_int_of_int)
  have x2: "py_int ?xe = ?N" if "lon = 180"
  proof -
    have "?xe = of_int ?N" using that by (simp add: n_def)
    then show ?thesis by (simp only: py_int_of_int)
  qed
  have x3: "py_int ?xe < ?N" if "lon \<le> 180 - 1 / 2 ^ 44"
  proof -
    have "(lon + 180) / 360 < 1" using that by simp
    then have "?xe < 1 * n" using npos by (intro mult_strict_right_mono)
    then have "?xe < of_int ?N" by (simp add: n_def)
    then show ?thesis using N by (rule py_int_less)
  qed
  have "lat_lon_to_tile lat lon z = Inr (py_int ?xe, py_int ?ye)"
    unfolding lat_lon_to_tile_Inr using tn xf yf by blast
  then show ?thesis using y1 y2 x1 x2 x3 x4 by blast
qed

theorem lat_lon_to_tile_in_range_witness:
  "(0::int) \<le> 3 \<and> (3::int) \<le> 1023 \<and> - (8505 / 100) \<le> (8505 / 100 :: real) \<and>
   (- 180 :: real) \<le> 180 - 1 / 2 ^ 44 \<and>
   (\<exists>x y. lat_lon_to_tile (8505 / 100) (- 180) 3 = Inr (x, y) \<and>
          0 \<le> y \<and> y < 8 \<and> 0 \<le> x \<and> x < 8)"
proof -
  have h: "(0::int) \<le> 3" "(3::int) \<le> 1023" "- (8505 / 100) \<le> (8505 / 100 :: real)"
    "(8505 / 100 :: real) \<le> 8505 / 100" "(- 180 :: real) \<le> - 180" "(- 180 :: real) \<le> 180"
    by simp_all
  have s: "(- 180 :: real) \<le> 180 - 1 / 2 ^ 44" by simp
  obtain x y where "lat_lon_to_tile (8505 / 100) (- 180) 3 = Inr (x, y)"
    "0 \<le> y" "y < 2 ^ nat 3" "0 \<le> x" "(- 180 :: real) \<le> 180 - 1 / 2 ^ 44 \<longrightarrow> x < 2 ^ nat 3"
    using lat_lon_to_tile_in_range [OF h] by blast
  then show ?thesis using h s by auto
qed

text \<open>
  C2 as stated fails at the eastern edge, where longitude 180 at zoom 3 gives column 8,
  which is not below \<open>2^3\<close>, and at zoom 1024, where \<open>2.0 ** zoom\<close> raises
  OverflowError and no indices are returned.
\<close>

theorem lat_lon_to_tile_east_edge_counterexample:
  "lat_lon_to_tile 0 180 3 = Inr (8, 4) \<and> \<not> (8::int) < 2 ^ 3 \<and>
   lat_lon_to_tile 0 0 1024 = Inl OverflowError"
  by (simp add: lat_lon_to_tile_def Let_def tiles_per_axis_def int_of_float_def
        rounds_to_inf_def py_int_def radians_def)

section \<open>Tile rectangle of an area\<close>

lemma degrees_nonneg: "0 \<le> r \<Longrightarrow> 0 \<le> degrees r"
  by (simp add: degrees_def)

lemma degrees_le: assumes "0 \<le> r" shows "degrees r \<le> 90 * r"
proof -
  have "2 * r \<le> pi * r" using assms pi_ge_two by (intro mult_right_mono)
  then have "r * 180 \<le> 90 * r * pi" by simp
  then have "r * 180 / pi \<le> 90 * r" by (simp add: field_simps)
  then show ?thesis by (simp add: degrees_def)
qed

lemma radians_degrees [simp]: "radians (degrees r) = r"
  by (simp add: radians_def degrees_def)

lemma radians_add: "radians (a + b) = radians a + radians b"
  by (simp add: radians_def distrib_right)

lemma radians_diff: "radians (a - b) = radians a - radians b"
  by (simp add: radians_def left_diff_distrib)

lemma tile_x_mono:
  assumes "lon1 \<le> lon2" "0 \<le> n"
  shows "py_int ((lon1 + 180) / 360 * n) \<le> py_int ((lon2 + 180) / 360 * n)"
proof -
  have "(lon1 + 180) / 360 * n \<le> (lon2 + 180) / 360 * n"
    using assms by (intro mult_right_mono) simp_all
  then show ?thesis by (rule py_int_mono)
qed

lemma half_complement_antimono: "a \<le> b \<Longrightarrow> (1 - b) / 2 \<le> (1 - a) / (2::real)"
  by simp

lemma tile_y_antimono:
  assumes "- 90 < lat1" "lat1 \<le> lat2" "lat2 < 90" "0 \<le> n"
  shows "py_int ((1 - arsinh (tan (radians lat2)) / pi) / 2 * n)
       \<le> py_int ((1 - arsinh (tan (radians lat1)) / pi) / 2 * n)"
proof -
  have "arsinh (tan (radians lat1)) / pi \<le> arsinh (tan (radians lat2)) / pi"
    using mercator_monotone [OF assms(1,2,3)] by (simp add: divide_right_mono)
  then have "(1 - arsinh (tan (radians lat2)) / pi) / 2 \<le> (1 - arsinh (tan (radians lat1)) / pi) / 2"
    by (rule half_complement_antimono)
  then have "(1 - arsinh (tan (radians lat2)) / pi) / 2 * n
           \<le> (1 - arsinh (tan (radians lat1)) / pi) / 2 * n"
    using assms(4) by (intro mult_right_mono) simp_all
  then show ?thesis by (rule py_int_mono)
qed

lemma calculate_bounding_box_value:
  assumes "\<bar>clat\<bar> < 90"
  shows "calculate_bounding_box clat clon w h =
           Inr \<lparr>min_lat = clat - degrees (h / 2 / earth_radius),
                max_lat = clat + degrees (h / 2 / earth_radius),
                min_lon = clon - degrees (w / 2 / (earth_radius * cos (radians clat))),
                max_lon = clon + degrees (w / 2 / (earth_radius * cos (radians clat)))\<rparr>"
  using cos_radians_pos [OF assms]
  by (simp add: calculate_bounding_box_def meters_to_lat_lon_offset_def Let_def earth_radius_def)

lemma bounding_box_ordered:
  assumes "calculate_bounding_box clat clon w h = Inr bbox" "\<bar>clat\<bar> < 90" "0 \<le> w" "0 \<le> h"
  shows "min_lat bbox \<le> max_lat bbox" "min_lon bbox \<le> max_lon bbox"
proof -
  have v: "bbox = \<lparr>min_lat = clat - degrees (h / 2 / earth_radius),
                max_lat = clat + degrees (h / 2 / earth_radius),
                min_lon = clon - degrees (w / 2 / (earth_radius * cos (radians clat))),
                max_lon = clon + degrees (w / 2 / (earth_radius * cos (radians clat)))\<rparr>"
    using assms(1) unfolding calculate_bounding_box_value [OF assms(2)] by simp
  have "0 \<le> degrees (h / 2 / earth_radius)"
    using assms(4) by (intro degrees_nonneg) (simp add: earth_radius_def)
  then show "min_lat bbox \<le> max_lat bbox" unfolding v by simp
  have "0 < earth_radius * cos (radians clat)"
    using cos_radians_pos [OF assms(2)] by (simp add: earth_radius_def)
  then have "0 \<le> degrees (w / 2 / (earth_radius * cos (radians clat)))"
    using assms(3) by (intro degrees_nonneg) simp
  then show "min_lon bbox \<le> max_lon bbox" unfolding v by simp
qed

lemma get_tile_bounds_Inr:
  assumes "calculate_bounding_box clat clon w h = Inr bbox"
  shows "get_tile_bounds clat clon w h z p = Inr tb \<longleftrightarrow>
     (\<exists>mn_x mx_y mx_x mn_y.
        lat_lon_to_tile (min_lat bbox) (min_lon bbox) z = Inr (mn_x, mx_y) \<and>
        lat_lon_to_tile (max_lat bbox) (max_lon bbox) z = Inr (mx_x, mn_y) \<and>
        tb = \<lparr>min_tile_x = mn_x - p, max_tile_x = mx_x + p,
              min_tile_y = mn_y - p, max_tile_y = mx_y + p, zoom = z\<rparr>)"
  using assms by (auto simp: get_tile_bounds_def split: sum.splits prod.splits)

lemma get_tile_bounds_corners:
  assumes bb: "calculate_bounding_box clat clon w h = Inr bbox"
    and tb: "get_tile_bounds clat clon w h z p = Inr tb"
    and lat: "lat \<in> {min_lat bbox, max_lat bbox}" and lon: "lon \<in> {min_lon bbox, max_lon bbox}"
  shows "\<exists>n. tiles_per_axis z = Inr n \<and>
           lat_lon_to_tile lat lon z =
             Inr (py_int ((lon + 180) / 360 * n),
                  py_int ((1 - arsinh (tan (radians lat)) / pi) / 2 * n)) \<and>
           min_tile_x tb = py_int ((min_lon bbox + 180) / 360 * n) - p \<and>
           max_tile_x tb = py_int ((max_lon bbox + 180) / 360 * n) + p \<and>
           min_tile_y tb = py_int ((1 - arsinh (tan (radians (max_lat bbox))) / pi) / 2 * n) - p \<and>
           max_tile_y tb = py_int ((1 - arsinh (tan (radians (min_lat bbox))) / pi) / 2 * n) + p"
proof -
  obtain mn_x mx_y mx_x mn_y where
    c1: "lat_lon_to_tile (min_lat bbox) (min_lon bbox) z = Inr (mn_x, mx_y)" and
    c2: "lat_lon_to_tile (max_lat bbox) (max_lon bbox) z = Inr (mx_x, mn_y)" and
    t: "tb = \<lparr>min_tile_x = mn_x - p, max_tile_x = mx_x + p,
              min_tile_y = mn_y - p, max_tile_y = mx_y + p, zoom = z\<rparr>"
    using tb unfolding get_tile_bounds_Inr [OF bb] by blast
  obtain n where n: "tiles_per_axis z = Inr n"
    and f1: "\<not> rounds_to_inf ((min_lon bbox + 180) / 360 * n)"
            "\<not> rounds_to_inf ((1 - arsinh (tan (radians (min_lat bbox))) / pi) / 2 * n)"
    and v1: "mn_x = py_int ((min_lon bbox + 180) / 360 * n)"
            "mx_y = py_int ((1 - arsinh (tan (radians (min_lat bbox))) / pi) / 2 * n)"
    using c1 unfolding lat_lon_to_tile_Inr by blast
  have f2: "\<not> rounds_to_inf ((max_lon bbox + 180) / 360 * n)"
           "\<not> rounds_to_inf ((1 - arsinh (tan (radians (max_lat bbox))) / pi) / 2 * n)"
    and v2: "mx_x = py_int ((max_lon bbox + 180) / 360 * n)"
            "mn_y = py_int ((1 - arsinh (tan (radians (max_lat bbox))) / pi) / 2 * n)"
    using c2 n unfolding lat_lon_to_tile_Inr by auto
  have fx: "\<not> rounds_to_inf ((lon + 180) / 360 * n)" using lon f1(1) f2(1) by auto
  have fy: "\<not> rounds_to_inf ((1 - arsinh (tan (radians lat)) / pi) / 2 * n)"
    using lat f1(2) f2(2) by auto
  have "lat_lon_to_tile lat lon z =
          Inr (py_int ((lon + 180) / 360 * n),
               py_int ((1 - arsinh (tan (radians lat)) / pi) / 2 * n))"
    unfolding lat_lon_to_tile_Inr using n fx fy by blast
  then show ?thesis using n t v1 v2 by simp
qed

lemma get_tile_bounds_returns:
  assumes bb: "calculate_bounding_box clat clon w h = Inr bbox"
    and z: "z \<le> 1023"
    and lat: "- (8505 / 100) \<le> min_lat bbox" "min_lat bbox \<le> max_lat bbox" "max_lat bbox \<le> 8505 / 100"
    and lon: "- 180 \<le> min_lon bbox" "min_lon bbox \<le> max_lon bbox" "max_lon bbox \<le> 180"
  shows "\<exists>tb. get_tile_bounds clat clon w h z p = Inr tb"
proof -
  obtain n where n: "tiles_per_axis z = Inr n" using tiles_per_axis_returns [OF z] by blast
  note r = tiles_per_axis_range [OF n]
  have fx: "\<not> rounds_to_inf ((l + 180) / 360 * n)" if "- 180 \<le> l" "l \<le> 180" for l
  proof -
    have q: "0 \<le> (l + 180) / 360" "(l + 180) / 360 \<le> 1" using that by simp_all
    have "0 \<le> (l + 180) / 360 * n" using q(1) r(1) by (rule mult_nonneg_nonneg)
    moreover have "(l + 180) / 360 * n \<le> 1 * n" using q(2) r(1) by (rule mult_right_mono)
    ultimately have "\<bar>(l + 180) / 360 * n\<bar> \<le> 2 ^ 1023" using r(2) by linarith
    then show ?thesis by (rule in_range_not_inf)
  qed
  have fy: "\<not> rounds_to_inf ((1 - arsinh (tan (radians l)) / pi) / 2 * n)"
    if "- (8505 / 100) \<le> l" "l \<le> 8505 / 100" for l
  proof (cases "n = 0")
    case True
    then show ?thesis by (simp add: rounds_to_inf_def)
  next
    case False
    then have "0 < n" using r(1) by simp
    then have "0 < (1 - arsinh (tan (radians l)) / pi) / 2 * n"
      "(1 - arsinh (tan (radians l)) / pi) / 2 * n < n"
      using tile_row_in_range [OF mercator_bound [OF that]] by simp_all
    then have "\<bar>(1 - arsinh (tan (radians l)) / pi) / 2 * n\<bar> \<le> 2 ^ 1023" using r(2) by linarith
    then show ?thesis by (rule in_range_not_inf)
  qed
  have "\<exists>a b. lat_lon_to_tile (min_lat bbox) (min_lon bbox) z = Inr (a, b)"
    unfolding lat_lon_to_tile_Inr using n fx [of "min_lon bbox"] fy [of "min_lat bbox"] lat lon
    by auto
  moreover have "\<exists>a b. lat_lon_to_tile (max_lat bbox) (max_lon bbox) z = Inr (a, b)"
    unfolding lat_lon_to_tile_Inr using n fx [of "max_lon bbox"] fy [of "max_lat bbox"] lat lon
    by auto
  ultimately show ?thesis unfolding get_tile_bounds_Inr [OF bb] by blast
qed

text \<open>
  C1, amended. For a centre strictly between the poles and non-negative width, height
  and padding \<open>p\<close>, the bounding box is computed, and whenever \<open>get_tile_bounds\<close>
  returns a rectangle (at any zoom): the rectangle is at least \<open>1 + 2p\<close> tiles wide and
  the column of each of the four corners of the bounding box lies in its column range;
  when moreover both latitudes of the bounding box lie strictly between the poles, the
  rectangle is at least \<open>1 + 2p\<close> tiles high and the row of each corner lies in its row
  range. A rectangle is returned whenever the zoom is at most 1023 and the bounding box
  lies in the domain of the projection, latitudes in \<open>[-85.05, 85.05]\<close> and longitudes
  in \<open>[-180, 180]\<close>; outside it the call can raise instead, as \<open>2.0 ** zoom\<close> does
  from zoom 1024 on.
\<close>

theorem get_tile_bounds_padded:
  assumes c: "\<bar>clat\<bar> < 90" and w: "0 \<le> w" and h: "0 \<le> h" and p: "0 \<le> p"
  shows "\<exists>bbox. calculate_bounding_box clat clon w h = Inr bbox \<and>
           (\<forall>tb. get_tile_bounds clat clon w h z p = Inr tb \<longrightarrow>
              1 + 2 * p \<le> max_tile_x tb - min_tile_x tb + 1 \<and>
              (\<forall>lat \<in> {min_lat bbox, max_lat bbox}. \<forall>lon \<in> {min_lon bbox, max_lon bbox}.
                 \<exists>x y. lat_lon_to_tile lat lon z = Inr (x, y) \<and>
                   min_tile_x tb \<le> x \<and> x \<le> max_tile_x tb \<and>
                   (- 90 < min_lat bbox \<and> max_lat bbox < 90 \<longrightarrow>
                      min_tile_y tb \<le> y \<and> y \<le> max_tile_y tb)) \<and>
              (- 90 < min_lat bbox \<and> max_lat bbox < 90 \<longrightarrow>
                 1 + 2 * p \<le> max_tile_y tb - min_tile_y tb + 1)) \<and>
           (z \<le> 1023 \<and> - (8505 / 100) \<le> min_lat bbox \<and> max_lat bbox \<le> 8505 / 100 \<and>
            - 180 \<le> min_lon bbox \<and> max_lon bbox \<le> 180 \<longrightarrow>
              (\<exists>tb. get_tile_bounds clat clon w h z p = Inr tb))"
proof -
  obtain bbox where bb: "calculate_bounding_box clat clon w h = Inr bbox"
    using calculate_bounding_box_value [OF c] by blast
  note ord = bounding_box_ordered [OF bb c w h]
  have A: "1 + 2 * p \<le> max_tile_x tb - min_tile_x tb + 1 \<and>
      (\<forall>lat \<in> {min_lat bbox, max_lat bbox}. \<forall>lon \<in> {min_lon bbox, max_lon bbox}.
         \<exists>x y. lat_lon_to_tile lat lon z = Inr (x, y) \<and>
           min_tile_x tb \<le> x \<and> x \<le> max_tile_x tb \<and>
           (- 90 < min_lat bbox \<and> max_lat bbox < 90 \<longrightarrow>
              min_tile_y tb \<le> y \<and> y \<le> max_tile_y tb)) \<and>
      (- 90 < min_lat bbox \<and> max_lat bbox < 90 \<longrightarrow>
         1 + 2 * p \<le> max_tile_y tb - min_tile_y tb + 1)"
    if tb: "get_tile_bounds clat clon w h z p = Inr tb" for tb
  proof -
    obtain n where n: "tiles_per_axis z = Inr n"
      and fs: "min_tile_x tb = py_int ((min_lon bbox + 180) / 360 * n) - p"
        "max_tile_x tb = py_int ((max_lon bbox + 180) / 360 * n) + p"
        "min_tile_y tb = py_int ((1 - arsinh (tan (radians (max_lat bbox))) / pi) / 2 * n) - p"
        "max_tile_y tb = py_int ((1 - arsinh (tan (radians (min_lat bbox))) / pi) / 2 * n) + p"
      using get_tile_bounds_corners [OF bb tb, of "min_lat bbox" "min_lon bbox"] by auto
    have n0: "0 \<le> n" using tiles_per_axis_range(1) [OF n] .
    have x: "py_int ((min_lon bbox + 180) / 360 * n) \<le> py_int ((max_lon bbox + 180) / 360 * n)"
      using ord(2) n0 by (rule tile_x_mono)
    have y: "py_int ((1 - arsinh (tan (radians (max_lat bbox))) / pi) / 2 * n)
           \<le> py_int ((1 - arsinh (tan (radians (min_lat bbox))) / pi) / 2 * n)"
      if "- 90 < min_lat bbox \<and> max_lat bbox < 90"
      using that ord(1) n0 by (intro tile_y_antimono) simp_all
    have corner: "\<exists>x y. lat_lon_to_tile lat lon z = Inr (x, y) \<and>
           min_tile_x tb \<le> x \<and> x \<le> max_tile_x tb \<and>
           (- 90 < min_lat bbox \<and> max_lat bbox < 90 \<longrightarrow>
              min_tile_y tb \<le> y \<and> y \<le> max_tile_y tb)"
      if la: "lat \<in> {min_lat bbox, max_lat bbox}" and lo: "lon \<in> {min_lon bbox, max_lon bbox}"
      for lat lon
    proof -
      obtain m where m: "tiles_per_axis z = Inr m"
        and v: "lat_lon_to_tile lat lon z =
             Inr (py_int ((lon + 180) / 360 * m),
                  py_int ((1 - arsinh (tan (radians lat)) / pi) / 2 * m))"
        using get_tile_bounds_corners [OF bb tb la lo] by auto
      have mn: "m = n" using m n by simp
      have "min_tile_x tb \<le> py_int ((lon + 180) / 360 * n) \<and>
            py_int ((lon + 180) / 360 * n) \<le> max_tile_x tb"
        using lo x p unfolding fs by auto
      moreover have "min_tile_y tb \<le> py_int ((1 - arsinh (tan (radians lat)) / pi) / 2 * n) \<and>
            py_int ((1 - arsinh (tan (radians lat)) / pi) / 2 * n) \<le> max_tile_y tb"
        if "- 90 < min_lat bbox \<and> max_lat bbox < 90"
        using la y [OF that] p unfolding fs by auto
      ultimately show ?thesis using v unfolding mn by blast
    qed
    show ?thesis using x y p corner unfolding fs by auto
  qed
  have B: "\<exists>tb. get_tile_bounds clat clon w h z p = Inr tb"
    if "z \<le> 1023 \<and> - (8505 / 100) \<le> min_lat bbox \<and> max_lat bbox \<le> 8505 / 100 \<and>
        - 180 \<le> min_lon bbox \<and> max_lon bbox \<le> 180"
    using that ord by (intro get_tile_bounds_returns [OF bb]) simp_all
  show ?thesis using bb A B by blast
qed

lemma get_tile_bounds_value:
  assumes "calculate_bounding_box clat clon w h = Inr bbox" and "tiles_per_axis z = Inr n"
    and "\<not> rounds_to_inf ((min_lon bbox + 180) / 360 * n)"
    and "\<not> rounds_to_inf ((1 - arsinh (tan (radians (min_lat bbox))) / pi) / 2 * n)"
    and "\<not> rounds_to_inf ((max_lon bbox + 180) / 360 * n)"
    and "\<not> rounds_to_inf ((1 - arsinh (tan (radians (max_lat bbox))) / pi) / 2 * n)"
  shows "get_tile_bounds clat clon w h z p =
     Inr \<lparr>min_tile_x = py_int ((min_lon bbox + 180) / 360 * n) - p,
          max_tile_x = py_int ((max_lon bbox + 180) / 360 * n) + p,
          min_tile_y = py_int ((1 - arsinh (tan (radians (max_lat bbox))) / pi) / 2 * n) - p,
          max_tile_y = py_int ((1 - arsinh (tan (radians (min_lat bbox))) / pi) / 2 * n) + p,
          zoom = z\<rparr>"
  unfolding get_tile_bounds_Inr [OF assms(1)] lat_lon_to_tile_Inr using assms(2-) by auto

theorem get_tile_bounds_padded_witness:
  "\<bar>0::real\<bar> < 90 \<and> (0::real) \<le> 500 \<and> (0::int) \<le> 1 \<and>
   (\<exists>tb. get_tile_bounds 0 0 500 500 17 1 = Inr tb \<and>
         3 \<le> max_tile_x tb - min_tile_x tb + 1 \<and>
         3 \<le> max_tile_y tb - min_tile_y tb + 1)"
proof -
  have h: "\<bar>0::real\<bar> < 90" "(0::real) \<le> 500" "(0::real) \<le> 500" "(0::int) \<le> 1" by simp_all
  define d1 where "d1 = degrees (500 / 2 / earth_radius)"
  define d2 where "d2 = degrees (500 / 2 / (earth_radius * cos (radians 0)))"
  have v: "calculate_bounding_box 0 0 500 500 =
      Inr \<lparr>min_lat = 0 - d1, max_lat = 0 + d1, min_lon = 0 - d2, max_lon = 0 + d2\<rparr>"
    unfolding d1_def d2_def by (rule calculate_bounding_box_value) simp
  have "0 \<le> d1" "d1 \<le> 90 * (500 / 2 / earth_radius)"
    unfolding d1_def by (intro degrees_nonneg degrees_le; simp add: earth_radius_def)+
  then have d1: "0 \<le> d1" "d1 \<le> 1" by (simp_all add: earth_radius_def)
  have "0 \<le> d2" "d2 \<le> 90 * (500 / 2 / (earth_radius * cos (radians 0)))"
    unfolding d2_def by (intro degrees_nonneg degrees_le; simp add: earth_radius_def radians_def)+
  then have d2: "0 \<le> d2" "d2 \<le> 1" by (simp_all add: earth_radius_def radians_def)
  obtain bbox where bb: "calculate_bounding_box 0 0 500 500 = Inr bbox"
    and A: "\<forall>tb. get_tile_bounds 0 0 500 500 17 1 = Inr tb \<longrightarrow>
              1 + 2 * 1 \<le> max_tile_x tb - min_tile_x tb + 1 \<and>
              (- 90 < min_lat bbox \<and> max_lat bbox < 90 \<longrightarrow>
                 1 + 2 * 1 \<le> max_tile_y tb - min_tile_y tb + 1)"
    and B: "17 \<le> (1023::int) \<and> - (8505 / 100) \<le> min_lat bbox \<and> max_lat bbox \<le> 8505 / 100 \<and>
            - 180 \<le> min_lon bbox \<and> max_lon bbox \<le> 180 \<longrightarrow>
              (\<exists>tb. get_tile_bounds 0 0 500 500 17 1 = Inr tb)"
    using get_tile_bounds_padded [OF h, of 0 17] by blast
  have e: "bbox = \<lparr>min_lat = 0 - d1, max_lat = 0 + d1, min_lon = 0 - d2, max_lon = 0 + d2\<rparr>"
    using bb unfolding v by simp
  have r: "- (8505 / 100) \<le> min_lat bbox" "max_lat bbox \<le> 8505 / 100"
    "- 180 \<le> min_lon bbox" "max_lon bbox \<le> 180" "- 90 < min_lat bbox" "max_lat bbox < 90"
    unfolding e using d1 d2 by simp_all
  obtain tb where tb: "get_tile_bounds 0 0 500 500 17 1 = Inr tb" using B r by auto
  show ?thesis using A tb r h by auto
qed

lemma tan_neg_second_quadrant:
  assumes "pi / 2 < x" "x < pi" shows "tan x < 0"
proof -
  have "tan (x - pi) < 0" using assms by (intro tan_less_zero) simp_all
  moreover have "tan (x - pi) = tan x" using tan_periodic_pi [of "x - pi"] by simp
  ultimately show ?thesis by simp
qed

lemma tan_pos_first_quadrant:
  assumes "0 < x" "x < pi / 2" shows "0 < tan x"
  using assms by (rule tan_gt_zero)

lemma py_int_ge: "of_int k \<le> x \<Longrightarrow> 0 \<le> k \<Longrightarrow> k \<le> py_int x"
  by (simp add: py_int_def le_floor_iff)

lemma cos_half_pi_minus: "cos (pi / 2 - x) = sin x"
  by (simp add: cos_diff)

lemma cos_half_pi_plus: "cos (pi / 2 + x) = - sin x"
  by (simp add: cos_add)

lemma tan_abs_le:
  fixes x :: real
  assumes "c \<le> \<bar>cos x\<bar>" "0 < c" shows "\<bar>tan x\<bar> \<le> 1 / c"
proof -
  have "\<bar>sin x\<bar> / \<bar>cos x\<bar> \<le> 1 / c"
    by (rule frac_le) (use assms in simp_all)
  then show ?thesis by (simp add: tan_def)
qed

lemma half_difference_lower: "201 \<le> a \<Longrightarrow> b \<le> 1 \<Longrightarrow> 100 \<le> (a - b) / (2::real)"
  by simp

lemma sinh_200_lower: "100 \<le> sinh (200 :: real)"
proof -
  have "1 + 200 \<le> exp (200 :: real)" by (rule exp_ge_add_one_self)
  then have a: "201 \<le> exp (200 :: real)" by simp
  have b: "exp (- 200 :: real) \<le> 1" by simp
  have "100 \<le> (exp 200 - exp (- 200 :: real)) / 2" using a b by (rule half_difference_lower)
  then show ?thesis by (simp only: sinh_field_def)
qed

lemma arsinh_abs_le:
  fixes v :: real assumes "\<bar>v\<bar> \<le> 100" shows "\<bar>arsinh v\<bar> \<le> 200"
proof -
  have "\<not> sinh 200 < v" using assms sinh_200_lower by linarith
  then have "\<not> arsinh (sinh 200) < arsinh v" by (simp only: arsinh_less_iff_real simp_thms)
  then have up: "arsinh v \<le> 200" by (simp only: arsinh_sinh_real not_less)
  have m: "sinh (- 200 :: real) = - sinh 200" by (rule sinh_minus)
  have "\<not> v < sinh (- 200)" unfolding m using assms sinh_200_lower by linarith
  then have "\<not> arsinh v < arsinh (sinh (- 200))" by (simp only: arsinh_less_iff_real simp_thms)
  then have "- 200 \<le> arsinh v" by (simp only: arsinh_sinh_real not_less)
  with up show ?thesis by linarith
qed

lemma tile_row_abs: "\<bar>q\<bar> \<le> 100 \<Longrightarrow> \<bar>(1 - q) / 2 * 4\<bar> \<le> (202::real)"
  by (simp add: abs_le_iff)

lemma tile_row_finite:
  assumes "\<bar>tan r\<bar> \<le> 100"
  shows "\<not> rounds_to_inf ((1 - arsinh (tan r) / pi) / 2 * 4)"
proof -
  have a: "\<bar>arsinh (tan r)\<bar> \<le> 200" using assms by (rule arsinh_abs_le)
  have "\<bar>arsinh (tan r) / pi\<bar> = \<bar>arsinh (tan r)\<bar> / pi" by simp
  also have "\<dots> \<le> 200 / 2" using a pi_ge_two by (intro frac_le) simp_all
  finally have "\<bar>arsinh (tan r) / pi\<bar> \<le> 100" by simp
  then have "\<bar>(1 - arsinh (tan r) / pi) / 2 * 4\<bar> \<le> 202" by (rule tile_row_abs)
  also have "(202::real) \<le> 2 ^ 1023" by simp
  finally show ?thesis by (rule in_range_not_inf)
qed

lemma tile_column_finite:
  assumes "\<bar>l\<bar> \<le> 540"
  shows "\<not> rounds_to_inf ((l + 180) / 360 * 4)"
proof -
  have "\<bar>(l + 180) / 360 * 4\<bar> \<le> 8" using assms by simp
  also have "(8::real) \<le> 2 ^ 1023" by simp
  finally show ?thesis by (rule in_range_not_inf)
qed

text \<open>
  C1 as stated fails when the box crosses a pole: centred at latitude 85 with a height
  of 2000 km, the northern edge lies at about 93.98 degrees, where the tangent is
  negative; at zoom 2 with padding 1 the function returns a rectangle whose
  \<open>min_tile_y\<close> exceeds \<open>max_tile_y\<close>.
\<close>

theorem get_tile_bounds_pole_counterexample:
  "\<bar>85::real\<bar> < 90 \<and> \<not> isl (get_tile_bounds 85 0 2000000 2000000 2 1) \<and>
   max_tile_y (projr (get_tile_bounds 85 0 2000000 2000000 2 1))
     - min_tile_y (projr (get_tile_bounds 85 0 2000000 2000000 2 1)) + 1 < 1 + 2 * 1"
proof -
  define t :: real where "t = 2000000 / 2 / earth_radius"
  define d :: real where "d = degrees (2000000 / 2 / (earth_radius * cos (radians 85)))"
  have t: "3 / 20 \<le> t" "t < 1 / 2" by (simp_all add: t_def earth_radius_def)
  have v: "calculate_bounding_box 85 0 2000000 2000000 =
      Inr \<lparr>min_lat = 85 - degrees t, max_lat = 85 + degrees t, min_lon = 0 - d, max_lon = 0 + d\<rparr>"
    unfolding t_def d_def by (rule calculate_bounding_box_value) simp
  have r85: "radians 85 = pi / 2 - pi / 36" by (simp add: radians_def)
  have rhi: "radians (85 + degrees t) = pi / 2 + (t - pi / 36)" by (simp add: radians_add r85)
  have rlo: "radians (85 - degrees t) = pi / 2 - (pi / 36 + t)" by (simp add: radians_diff r85)
  have p36: "1 / 18 \<le> pi / 36" "pi / 36 < 1 / 9" using pi_ge_two pi_less_4 by simp_all
  have hi: "pi / 2 < radians (85 + degrees t)" "radians (85 + degrees t) < pi"
    unfolding rhi using t p36 pi_ge_two by linarith+
  have lo: "0 < radians (85 - degrees t)" "radians (85 - degrees t) < pi / 2"
    unfolding rlo using t p36 pi_ge_two by linarith+
  have a1: "arsinh (tan (radians (85 + degrees t))) < 0"
    using tan_neg_second_quadrant [OF hi] by simp
  have a2: "0 < arsinh (tan (radians (85 - degrees t)))"
    using tan_pos_first_quadrant [OF lo] by simp
  have n: "tiles_per_axis 2 = Inr 4" by (simp add: tiles_per_axis_def)
  have c85: "1 / 36 \<le> cos (radians 85)"
  proof -
    have "pi / 36 / 2 \<le> sin (pi / 36)" by (rule sin_ge_half) (use p36 in simp_all)
    moreover have "cos (radians 85) = sin (pi / 36)" unfolding r85 by (rule cos_half_pi_minus)
    ultimately show ?thesis using p36 by simp
  qed
  have d: "\<bar>d\<bar> \<le> 540"
  proof -
    have c0: "0 < earth_radius * (1 / 36)" by (simp add: earth_radius_def)
    have "earth_radius * (1 / 36) \<le> earth_radius * cos (radians 85)"
      using c85 by (intro mult_left_mono) (simp_all add: earth_radius_def)
    then have "2000000 / 2 / (earth_radius * cos (radians 85)) \<le> 2000000 / 2 / (earth_radius * (1 / 36))"
      using c0 by (intro divide_left_mono mult_pos_pos) (simp_all add: less_le_trans)
    also have "\<dots> \<le> 6" by (simp add: earth_radius_def)
    finally have q: "2000000 / 2 / (earth_radius * cos (radians 85)) \<le> 6" .
    have q0: "0 \<le> 2000000 / 2 / (earth_radius * cos (radians 85))"
      using c85 by (simp add: earth_radius_def)
    have "d \<le> 90 * (2000000 / 2 / (earth_radius * cos (radians 85)))"
      unfolding d_def using q0 by (rule degrees_le)
    moreover have "0 \<le> d" unfolding d_def using q0 by (rule degrees_nonneg)
    ultimately show ?thesis using q by simp
  qed
  have thi: "\<bar>tan (radians (85 + degrees t))\<bar> \<le> 100"
  proof -
    have s: "(t - pi / 36) / 2 \<le> sin (t - pi / 36)"
      by (rule sin_ge_half) (use t p36 in simp_all)
    have "cos (radians (85 + degrees t)) = - sin (t - pi / 36)"
      unfolding rhi by (rule cos_half_pi_plus)
    then have "1 / 100 \<le> \<bar>cos (radians (85 + degrees t))\<bar>" using s t p36 by simp
    then have "\<bar>tan (radians (85 + degrees t))\<bar> \<le> 1 / (1 / 100)" by (rule tan_abs_le) simp
    then show ?thesis by simp
  qed
  have tlo: "\<bar>tan (radians (85 - degrees t))\<bar> \<le> 100"
  proof -
    have s: "(pi / 36 + t) / 2 \<le> sin (pi / 36 + t)"
      by (rule sin_ge_half) (use t p36 in simp_all)
    have "cos (radians (85 - degrees t)) = sin (pi / 36 + t)"
      unfolding rlo by (rule cos_half_pi_minus)
    then have "1 / 100 \<le> \<bar>cos (radians (85 - degrees t))\<bar>" using s t p36 by simp
    then have "\<bar>tan (radians (85 - degrees t))\<bar> \<le> 1 / (1 / 100)" by (rule tan_abs_le) simp
    then show ?thesis by simp
  qed
  have up: "of_int 2 \<le> (1 - q) / 2 * 4" if "q < 0" for q :: real using that by simp
  have dn: "(1 - q) / 2 * 4 < of_int 2" if "0 < q" for q :: real using that by simp
  have "arsinh (tan (radians (85 + degrees t))) / pi < 0" using a1 by (simp add: field_simps)
  then have "of_int 2 \<le> (1 - arsinh (tan (radians (85 + degrees t))) / pi) / 2 * 4" by (rule up)
  then have top: "2 \<le> py_int ((1 - arsinh (tan (radians (85 + degrees t))) / pi) / 2 * 4)"
    by (rule py_int_ge) simp
  have "0 < arsinh (tan (radians (85 - degrees t))) / pi" using a2 by simp
  then have "(1 - arsinh (tan (radians (85 - degrees t))) / pi) / 2 * 4 < of_int 2" by (rule dn)
  then have bot: "py_int ((1 - arsinh (tan (radians (85 - degrees t))) / pi) / 2 * 4) < 2"
    by (rule py_int_less) simp
  have g: "get_tile_bounds 85 0 2000000 2000000 2 1 =
     Inr \<lparr>min_tile_x = py_int ((0 - d + 180) / 360 * 4) - 1,
          max_tile_x = py_int ((0 + d + 180) / 360 * 4) + 1,
          min_tile_y = py_int ((1 - arsinh (tan (radians (85 + degrees t))) / pi) / 2 * 4) - 1,
          max_tile_y = py_int ((1 - arsinh (tan (radians (85 - degrees t))) / pi) / 2 * 4) + 1,
          zoom = 2\<rparr>"
    using get_tile_bounds_value [OF v n, of 1]
      tile_column_finite [of "0 - d"] tile_column_finite [of "0 + d"]
      tile_row_finite [OF thi] tile_row_finite [OF tlo] d
    by simp
  show ?thesis unfolding g using top bot by simp
qed

section \<open>Round trip between tiles and points\<close>

text \<open>
  The formulas of the two conversions are inverse to each other on tile indices:
  whenever \<open>tile_to_lat_lon\<close> returns the corner of a tile, \<open>lat_lon_to_tile\<close> maps
  the corner back to the tile. This is a statement about the exact values. The corner
  lies on the edge of the tile, where \<open>int\<close> truncates, and the doubles that
  \<open>math.sinh\<close>, \<open>math.atan\<close>, \<open>math.tan\<close> and \<open>math.asinh\<close> return can lie on
  the other side of the edge; what a double evaluation returns there is not described
  by this lemma.
\<close>

lemma tile_round_trip_exact:
  assumes "tile_to_lat_lon x y z = Inr (lat, lon)"
  shows "lat_lon_to_tile lat lon z = Inr (x, y)"
proof -
  obtain n where n: "tiles_per_axis z = Inr n"
    using assms by (auto simp: tile_to_lat_lon_def split: sum.splits)
  have f: "\<not> rounds_to_inf (of_int x)" "n \<noteq> 0" "\<not> rounds_to_inf (of_int (2 * y))"
    and lon: "lon = of_int x / n * 360 - 180"
    and lat: "lat = degrees (arctan (sinh (pi * (1 - 2 * of_int y / n))))"
    using assms n by (auto simp: tile_to_lat_lon_def Let_def split: if_splits)
  have "\<bar>real_of_int y\<bar> \<le> \<bar>real_of_int (2 * y)\<bar>" by simp
  then have fy: "\<not> rounds_to_inf (of_int y)"
    using f(3) unfolding rounds_to_inf_def by linarith
  have ex: "(lon + 180) / 360 * n = of_int x" using f(2) by (simp add: lon)
  have ey: "(1 - arsinh (tan (radians lat)) / pi) / 2 * n = of_int y"
    using f(2) by (simp add: lat tan_arctan arsinh_sinh_real field_simps)
  have fx': "\<not> rounds_to_inf ((lon + 180) / 360 * n)" unfolding ex by (rule f(1))
  have fy': "\<not> rounds_to_inf ((1 - arsinh (tan (radians lat)) / pi) / 2 * n)"
    unfolding ey by (rule fy)
  have "lat_lon_to_tile lat lon z =
          Inr (py_int ((lon + 180) / 360 * n),
               py_int ((1 - arsinh (tan (radians lat)) / pi) / 2 * n))"
    unfolding lat_lon_to_tile_Inr using n fx' fy' by blast
  then show ?thesis by (simp only: ex ey py_int_of_int)
qed

section \<open>Fetching tiles\<close>

lemma map_of_PROVIDERS:
  "map_of PROVIDERS prov =
     (if prov = ''esri'' then Some (snd (PROVIDERS ! 0))
      else if prov = ''osm'' then Some (snd (PROVIDERS ! 1))
      else if prov = ''usgs'' then Some (snd (PROVIDERS ! 2))
      else None)"
  by (simp add: PROVIDERS_def)

lemma fetch_tile_error:
  "fst (fetch_tile e tf w z x y uc) = Inl err \<Longrightarrow>
     err = OSError \<and> makedirs_fails e [cache_dir tf, provider tf, py_str z, py_str x]"
  by (auto simp: fetch_tile_def get_cache_path_def Let_def
           split: if_splits sum.splits option.splits http_result.splits)

text \<open>
  C9, amended. A provider name outside \<open>esri\<close>, \<open>osm\<close>, \<open>usgs\<close> makes the constructor
  raise ValueError; a name inside the set gives a fetcher bound to that provider's
  configuration when the cache directory can be created, and raises the OSError of
  \<open>os.makedirs\<close> when it cannot; and no tile fetch ever reports the configuration error.
\<close>

theorem tile_fetcher_init_provider:
  "(prov \<notin> {''esri'', ''osm'', ''usgs''} \<longrightarrow> tile_fetcher_init e prov cdir = Inl ValueError) \<and>
   (prov \<in> {''esri'', ''osm'', ''usgs''} \<and> \<not> makedirs_fails e [cdir] \<longrightarrow>
      (\<exists>cfg. map_of PROVIDERS prov = Some cfg \<and>
         tile_fetcher_init e prov cdir = Inr \<lparr>provider = prov, provider_cfg = cfg, cache_dir = cdir\<rparr>)) \<and>
   (prov \<in> {''esri'', ''osm'', ''usgs''} \<and> makedirs_fails e [cdir] \<longrightarrow>
      tile_fetcher_init e prov cdir = Inl OSError) \<and>
   fst (fetch_tile e tf w z x y use_cache) \<noteq> Inl ValueError"
proof (intro conjI impI)
  assume "prov \<notin> {''esri'', ''osm'', ''usgs''}"
  then show "tile_fetcher_init e prov cdir = Inl ValueError"
    by (simp add: tile_fetcher_init_def map_of_PROVIDERS)
next
  assume "prov \<in> {''esri'', ''osm'', ''usgs''} \<and> \<not> makedirs_fails e [cdir]"
  then show "\<exists>cfg. map_of PROVIDERS prov = Some cfg \<and>
      tile_fetcher_init e prov cdir = Inr \<lparr>provider = prov, provider_cfg = cfg, cache_dir = cdir\<rparr>"
    by (auto simp: tile_fetcher_init_def map_of_PROVIDERS)
next
  assume "prov \<in> {''esri'', ''osm'', ''usgs''} \<and> makedirs_fails e [cdir]"
  then show "tile_fetcher_init e prov cdir = Inl OSError"
    by (auto simp: tile_fetcher_init_def map_of_PROVIDERS)
next
  show "fst (fetch_tile e tf w z x y use_cache) \<noteq> Inl ValueError"
    using fetch_tile_error [of e tf w z x y use_cache ValueError] by auto
qed

text \<open>
  C9 as stated fails for a valid name when the cache directory cannot be created: the
  constructor calls \<open>os.makedirs\<close> outside any \<open>try\<close>, and its OSError ends the
  construction.
\<close>

theorem tile_fetcher_init_unwritable_counterexample:
  "''osm'' \<in> {''esri'', ''osm'', ''usgs''} \<and>
   tile_fetcher_init unwritable_env ''osm'' ''/tmp/map_tiles'' = Inl OSError"
  by (simp add: tile_fetcher_init_def map_of_PROVIDERS unwritable_env_def)

lemma update_fresh: "k \<notin> fst ` set al \<Longrightarrow> AList.update k v al = al @ [(k, v)]"
  by (induction al) auto

lemma fetched_Nil [simp]: "fetched [] = []"
  by (simp add: fetched_def)

lemma fetched_Cons:
  "fetched ((k, r) # rs) = (case r of None \<Rightarrow> [] | Some img \<Rightarrow> [(k, img)]) @ fetched rs"
  by (cases r) (simp_all add: fetched_def)

lemma fetched_append [simp]: "fetched (rs @ rs') = fetched rs @ fetched rs'"
  by (simp add: fetched_def)

lemma fetched_keys: "fst ` set (fetched rs) \<subseteq> fst ` set rs"
proof (induction rs)
  case Nil
  then show ?case by simp
next
  case (Cons r rs)
  obtain k i where r: "r = (k, i)" by (cases r)
  show ?case using Cons unfolding r by (cases i) (auto simp: fetched_Cons)
qed

lemma length_fetched: "length (fetched rs) + failed_count rs = length rs"
proof (induction rs)
  case Nil
  then show ?case by (simp add: failed_count_def)
next
  case (Cons r rs)
  obtain k i where r: "r = (k, i)" by (cases r)
  show ?case using Cons unfolding r by (cases i) (simp_all add: fetched_Cons failed_count_def)
qed

lemma tile_outcomes_keys: "map fst (fst (tile_outcomes e tf z w ks)) = ks"
  by (induction ks arbitrary: w) (simp_all add: Let_def)

lemma tile_outcomes_append:
  "tile_outcomes e tf z w (ks @ ks') =
     (fst (tile_outcomes e tf z w ks) @ fst (tile_outcomes e tf z (snd (tile_outcomes e tf z w ks)) ks'),
      snd (tile_outcomes e tf z (snd (tile_outcomes e tf z w ks)) ks'))"
  by (induction ks arbitrary: w) (simp_all add: Let_def)

lemma fetch_ys_outcomes:
  assumes "\<forall>p. \<not> makedirs_fails e p"
    and "distinct ys" and "\<forall>y \<in> set ys. (x, y) \<notin> fst ` set ts"
  shows "fetch_ys e tf z x ys ts w =
           (Inr (ts @ fetched (fst (tile_outcomes e tf z w (map (Pair x) ys)))),
            snd (tile_outcomes e tf z w (map (Pair x) ys)))"
  using assms(2,3)
proof (induction ys arbitrary: ts w)
  case Nil
  then show ?case by simp
next
  case (Cons y ys)
  obtain r w1 where f: "fetch_tile e tf w z x y True = (r, w1)" by (cases "fetch_tile e tf w z x y True")
  have "\<not> isl r" using fetch_tile_error [of e tf w z x y True] assms(1) f by (cases r) auto
  then obtain i where r: "r = Inr i" by (cases r) auto
  show ?case
  proof (cases i)
    case None
    have "fetch_ys e tf z x ys ts w1 =
           (Inr (ts @ fetched (fst (tile_outcomes e tf z w1 (map (Pair x) ys)))),
            snd (tile_outcomes e tf z w1 (map (Pair x) ys)))"
      using Cons.prems by (intro Cons.IH) auto
    then show ?thesis using f r None by (simp add: Let_def fetched_Cons)
  next
    case (Some img)
    have fresh: "(x, y) \<notin> fst ` set ts" using Cons.prems by auto
    have "fetch_ys e tf z x ys (ts @ [((x, y), img)]) w1 =
           (Inr ((ts @ [((x, y), img)]) @ fetched (fst (tile_outcomes e tf z w1 (map (Pair x) ys)))),
            snd (tile_outcomes e tf z w1 (map (Pair x) ys)))"
      using Cons.prems by (intro Cons.IH) auto
    then show ?thesis using f r Some by (simp add: Let_def fetched_Cons update_fresh [OF fresh])
  qed
qed

lemma fetch_xs_outcomes:
  assumes "\<forall>p. \<not> makedirs_fails e p"
    and "distinct ys" and "distinct xs" and "\<forall>x \<in> set xs. \<forall>y. (x, y) \<notin> fst ` set ts"
  shows "fetch_xs e tf z xs ys ts w =
           (Inr (ts @ fetched (fst (tile_outcomes e tf z w (concat (map (\<lambda>x. map (Pair x) ys) xs))))),
            snd (tile_outcomes e tf z w (concat (map (\<lambda>x. map (Pair x) ys) xs))))"
  using assms(3,4)
proof (induction xs arbitrary: ts w)
  case Nil
  then show ?case by simp
next
  case (Cons x xs)
  let ?o1 = "tile_outcomes e tf z w (map (Pair x) ys)"
  let ?ts1 = "ts @ fetched (fst ?o1)"
  have inner: "fetch_ys e tf z x ys ts w = (Inr ?ts1, snd ?o1)"
    using assms(1,2) Cons.prems by (intro fetch_ys_outcomes) auto
  have keys1: "fst ` set (fetched (fst ?o1)) \<subseteq> Pair x ` set ys"
    using fetched_keys [of "fst ?o1"] tile_outcomes_keys [of e tf z w "map (Pair x) ys"]
    by (metis set_map)
  have "(x', y) \<notin> fst ` set ?ts1" if "x' \<in> set xs" for x' y
  proof -
    have "(x', y) \<notin> fst ` set ts" using that Cons.prems(2) by simp
    moreover have "x' \<noteq> x" using that Cons.prems(1) by auto
    then have "(x', y) \<notin> Pair x ` set ys" by auto
    then have "(x', y) \<notin> fst ` set (fetched (fst ?o1))" using keys1 by blast
    ultimately show ?thesis by (simp add: image_Un)
  qed
  then have "\<forall>x' \<in> set xs. \<forall>y. (x', y) \<notin> fst ` set ?ts1" by blast
  then have "fetch_xs e tf z xs ys ?ts1 (snd ?o1) =
      (Inr (?ts1 @ fetched (fst (tile_outcomes e tf z (snd ?o1) (concat (map (\<lambda>x. map (Pair x) ys) xs))))),
       snd (tile_outcomes e tf z (snd ?o1) (concat (map (\<lambda>x. map (Pair x) ys) xs))))"
    using Cons.prems by (intro Cons.IH) auto
  then show ?case using inner by (simp add: tile_outcomes_append)
qed

lemma distinct_grid:
  "distinct xs \<Longrightarrow> distinct ys \<Longrightarrow> distinct (concat (map (\<lambda>x. map (Pair x) ys) xs))"
  by (induction xs) (auto simp: distinct_map inj_on_def)

lemma distinct_rect_keys: "distinct (rect_keys tb)"
  unfolding rect_keys_def py_range2_def by (intro distinct_grid) simp_all

lemma length_rect_keys:
  assumes "min_tile_x tb \<le> max_tile_x tb" "min_tile_y tb \<le> max_tile_y tb"
  shows "int (length (rect_keys tb)) =
           (max_tile_x tb - min_tile_x tb + 1) * (max_tile_y tb - min_tile_y tb + 1)"
proof -
  have "length (rect_keys tb) =
          length [min_tile_x tb..max_tile_x tb] * length [min_tile_y tb..max_tile_y tb]"
    by (simp add: rect_keys_def py_range2_def length_concat comp_def sum_list_triv)
  then show ?thesis using assms by (simp add: nat_mult_distrib)
qed

lemma distinct_fetched: "distinct (map fst rs) \<Longrightarrow> distinct (map fst (fetched rs))"
proof (induction rs)
  case Nil
  then show ?case by simp
next
  case (Cons r rs)
  obtain k i where r: "r = (k, i)" by (cases r)
  have "k \<notin> fst ` set (fetched rs)" using Cons.prems fetched_keys [of rs] unfolding r by auto
  then show ?case using Cons unfolding r by (cases i) (simp_all add: fetched_Cons)
qed

text \<open>
  The part of C3 that the code keeps. For a rectangle with \<open>min \<le> max\<close> on both axes,
  when the cache directories can be created, \<open>fetch_tiles\<close> returns (it does not raise)
  the mapping of exactly the tiles whose fetch gave an image, in loop order and with
  distinct keys; its size is the number \<open>N\<close> of tiles of the rectangle minus the number
  \<open>M\<close> of tiles whose fetch failed.
\<close>

theorem fetch_tiles_partial_success:
  assumes "min_tile_x tb \<le> max_tile_x tb" and "min_tile_y tb \<le> max_tile_y tb"
    and "\<forall>p. \<not> makedirs_fails e p"
  shows "\<exists>ts w'. fetch_tiles e tf w tb = (Inr ts, w') \<and>
           ts = fetched (fst (tile_outcomes e tf (zoom tb) w (rect_keys tb))) \<and>
           distinct (map fst ts) \<and>
           int (length ts) =
             (max_tile_x tb - min_tile_x tb + 1) * (max_tile_y tb - min_tile_y tb + 1)
               - int (failed_count (fst (tile_outcomes e tf (zoom tb) w (rect_keys tb))))"
proof -
  let ?rs = "fst (tile_outcomes e tf (zoom tb) w (rect_keys tb))"
  have run: "fetch_tiles e tf w tb =
      (Inr (fetched ?rs), snd (tile_outcomes e tf (zoom tb) w (rect_keys tb)))"
    unfolding fetch_tiles_def rect_keys_def
    using fetch_xs_outcomes [OF assms(3), of "py_range2 (min_tile_y tb) (max_tile_y tb + 1)"
        "py_range2 (min_tile_x tb) (max_tile_x tb + 1)" "[]" tf "zoom tb" w]
    by (simp add: py_range2_def)
  have keys: "map fst ?rs = rect_keys tb" by (rule tile_outcomes_keys)
  have "distinct (map fst ?rs)" unfolding keys by (rule distinct_rect_keys)
  then have d: "distinct (map fst (fetched ?rs))" by (rule distinct_fetched)
  have "length ?rs = length (rect_keys tb)" using keys by (metis length_map)
  then have "int (length (fetched ?rs)) + int (failed_count ?rs) =
      (max_tile_x tb - min_tile_x tb + 1) * (max_tile_y tb - min_tile_y tb + 1)"
    using length_fetched [of ?rs] length_rect_keys [OF assms(1,2)] by linarith
  then show ?thesis using run d by simp
qed

text \<open>
  What the hypothesis on directory creation excludes: \<open>_get_cache_path\<close> calls
  \<open>os.makedirs\<close> before the first \<open>try\<close> of \<open>fetch_tile\<close>, so its OSError leaves
  \<open>fetch_tile\<close> and ends the batch.
\<close>

lemma fetch_tile_makedirs_error:
  "makedirs_fails e [cache_dir tf, provider tf, py_str z, py_str x] \<Longrightarrow>
     fetch_tile e tf w z x y use_cache = (Inl OSError, w)"
  by (simp add: fetch_tile_def get_cache_path_def)

lemma fetch_tiles_makedirs_error:
  assumes "min_tile_x tb \<le> max_tile_x tb" and "min_tile_y tb \<le> max_tile_y tb"
    and "\<forall>p. makedirs_fails e p"
  shows "fetch_tiles e tf w tb = (Inl OSError, w)"
proof -
  obtain xs where xs: "py_range2 (min_tile_x tb) (max_tile_x tb + 1) = min_tile_x tb # xs"
    using assms(1) by (simp add: py_range2_def upto_rec1)
  obtain ys where ys: "py_range2 (min_tile_y tb) (max_tile_y tb + 1) = min_tile_y tb # ys"
    using assms(2) by (simp add: py_range2_def upto_rec1)
  show ?thesis
    unfolding fetch_tiles_def xs ys
    using assms(3) by (simp add: fetch_tile_makedirs_error)
qed

theorem fetch_tiles_partial_success_witness:
  "min_tile_x demo_bounds \<le> max_tile_x demo_bounds \<and>
   min_tile_y demo_bounds \<le> max_tile_y demo_bounds \<and>
   (\<forall>p. \<not> makedirs_fails demo_env p) \<and>
   (\<exists>ts w'. fetch_tiles demo_env demo_fetcher fresh_world demo_bounds = (Inr ts, w') \<and>
      ts = fetched (fst (tile_outcomes demo_env demo_fetcher (zoom demo_bounds) fresh_world
                           (rect_keys demo_bounds))) \<and>
      distinct (map fst ts) \<and>
      int (length ts) =
        (max_tile_x demo_bounds - min_tile_x demo_bounds + 1)
          * (max_tile_y demo_bounds - min_tile_y demo_bounds + 1)
          - int (failed_count (fst (tile_outcomes demo_env demo_fetcher (zoom demo_bounds)
                                      fresh_world (rect_keys demo_bounds)))))"
proof -
  have h1: "min_tile_x demo_bounds \<le> max_tile_x demo_bounds" by (simp add: demo_bounds_def)
  have h2: "min_tile_y demo_bounds \<le> max_tile_y demo_bounds" by (simp add: demo_bounds_def)
  have h3: "\<forall>p. \<not> makedirs_fails demo_env p" by (simp add: demo_env_def)
  show ?thesis
    using fetch_tiles_partial_success [OF h1 h2 h3, of demo_fetcher fresh_world] h1 h2 h3
    by blast
qed

text \<open>
  C3 at a failing input. The fetcher is constructed (the cache root exists), no directory
  can be created below the root, and the batch over a rectangle of two tiles raises
  OSError at its first tile instead of returning a mapping without that tile.
\<close>

theorem fetch_tiles_raises_on_makedirs:
  "tile_fetcher_init shared_cache_env ''osm'' ''/tmp/map_tiles'' = Inr demo_fetcher \<and>
   fetch_tiles shared_cache_env demo_fetcher fresh_world demo_bounds = (Inl OSError, fresh_world)"
  by (simp add: tile_fetcher_init_def map_of_PROVIDERS PROVIDERS_def shared_cache_env_def
        demo_env_def demo_fetcher_def fetch_tiles_def py_range2_def demo_bounds_def upto_rec1
        fetch_tile_def get_cache_path_def)

lemma demo_first_fetch:
  "fetch_tile demo_env demo_fetcher fresh_world 1 0 0 True =
     (Inr (Some gray_tile),
      \<lparr>files = [[''/tmp/map_tiles'', ''osm'', py_str 1, py_str 0, py_str 0 @ ''.png''] \<mapsto> [2]],
       requests = [get_tile_url demo_fetcher 1 0 0]\<rparr>)"
  by (simp add: fetch_tile_def get_cache_path_def save_to_cache_def Let_def
        demo_env_def demo_fetcher_def fresh_world_def gray_tile_def)

text \<open>
  C6. When a first \<open>fetch_tile\<close> with caching succeeds over the network and its cache
  write succeeds, writing bytes that decode to the same image, a second call in the
  resulting state returns that same image and leaves the state as it is: the two calls
  issue one request in total.
\<close>

theorem fetch_tile_cache_idempotent:
  assumes first: "fetch_tile e tf w z x y True = (Inr (Some img), w1)"
    and net: "requests w1 \<noteq> requests w"
    and path: "get_cache_path e tf z x y = Inr cache_path"
    and saved: "img_loads img" "save_png e img cache_path = Some b"
    and codec: "image_open e b = Some img"
  shows "fetch_tile e tf w1 z x y True = (Inr (Some img), w1) \<and>
         length (requests w1) = length (requests w) + 1"
proof -
  let ?w0 = "w\<lparr>requests := requests w @ [get_tile_url tf z x y]\<rparr>"
  have miss: "(if files w cache_path \<noteq> None then load_cached e w cache_path else None) = None"
  proof (rule ccontr)
    assume "\<not> ?thesis"
    then have "w1 = w" using first path
      by (auto simp: fetch_tile_def split: option.splits if_splits)
    with net show False by simp
  qed
  have w1: "w1 = save_to_cache e ?w0 img cache_path"
    using first path miss
    by (auto simp: fetch_tile_def Let_def split: http_result.splits option.splits if_splits)
  then have w1': "w1 = ?w0\<lparr>files := (files ?w0)(cache_path \<mapsto> b)\<rparr>"
    using saved by (simp add: save_to_cache_def)
  have hit: "load_cached e w1 cache_path = Some img"
    using codec saved(1) by (simp add: w1' load_cached_def)
  have ex: "files w1 cache_path \<noteq> None" by (simp add: w1')
  have "fetch_tile e tf w1 z x y True = (Inr (Some img), w1)"
    using path hit ex by (simp add: fetch_tile_def)
  moreover have "length (requests w1) = length (requests w) + 1" by (simp add: w1')
  ultimately show ?thesis by simp
qed

theorem fetch_tile_cache_idempotent_witness:
  "fetch_tile demo_env demo_fetcher fresh_world 1 0 0 True =
     (Inr (Some gray_tile), snd (fetch_tile demo_env demo_fetcher fresh_world 1 0 0 True)) \<and>
   requests (snd (fetch_tile demo_env demo_fetcher fresh_world 1 0 0 True)) \<noteq> requests fresh_world \<and>
   get_cache_path demo_env demo_fetcher 1 0 0
     = Inr [''/tmp/map_tiles'', ''osm'', py_str 1, py_str 0, py_str 0 @ ''.png''] \<and>
   img_loads gray_tile \<and>
   save_png demo_env gray_tile [''/tmp/map_tiles'', ''osm'', py_str 1, py_str 0, py_str 0 @ ''.png'']
     = Some [2] \<and>
   image_open demo_env [2] = Some gray_tile \<and>
   fetch_tile demo_env demo_fetcher (snd (fetch_tile demo_env demo_fetcher fresh_world 1 0 0 True)) 1 0 0 True
     = (Inr (Some gray_tile), snd (fetch_tile demo_env demo_fetcher fresh_world 1 0 0 True)) \<and>
   length (requests (snd (fetch_tile demo_env demo_fetcher fresh_world 1 0 0 True)))
     = length (requests fresh_world) + 1"
proof -
  let ?w1 = "snd (fetch_tile demo_env demo_fetcher fresh_world 1 0 0 True)"
  let ?cp = "[''/tmp/map_tiles'', ''osm'', py_str 1, py_str 0, py_str 0 @ ''.png'']"
  have h1: "fetch_tile demo_env demo_fetcher fresh_world 1 0 0 True = (Inr (Some gray_tile), ?w1)"
    by (simp add: demo_first_fetch)
  have h2: "requests ?w1 \<noteq> requests fresh_world"
    unfolding demo_first_fetch by (simp add: fresh_world_def)
  have h3: "get_cache_path demo_env demo_fetcher 1 0 0 = Inr ?cp"
    by (simp add: get_cache_path_def demo_env_def demo_fetcher_def)
  have h4: "img_loads gray_tile" by (simp add: gray_tile_def)
  have h5: "save_png demo_env gray_tile ?cp = Some [2]" by (simp add: demo_env_def)
  have h6: "image_open demo_env [2] = Some gray_tile" by (simp add: demo_env_def)
  show ?thesis
    using fetch_tile_cache_idempotent [OF h1 h2 h3 h4 h5 h6] h1 h2 h3 h4 h5 h6 by blast
qed

theorem tile_fetcher_init_provider_witness:
  "''osm'' \<in> {''esri'', ''osm'', ''usgs''} \<and> \<not> makedirs_fails demo_env [''/tmp/map_tiles''] \<and>
   tile_fetcher_init demo_env ''osm'' ''/tmp/map_tiles'' = Inr demo_fetcher \<and>
   ''bing'' \<notin> {''esri'', ''osm'', ''usgs''} \<and>
   tile_fetcher_init demo_env ''bing'' ''/tmp/map_tiles'' = Inl ValueError"
  using tile_fetcher_init_provider [of "''osm''" demo_env "''/tmp/map_tiles''"]
    tile_fetcher_init_provider [of "''bing''" demo_env "''/tmp/map_tiles''"]
  by (simp add: demo_env_def demo_fetcher_def map_of_PROVIDERS PROVIDERS_def)

section \<open>Stitching and the grid overlay\<close>

lemma place_tile_frame:
  "img_width (fst (place_tile st mx my acc entry)) = img_width (fst acc) \<and>
   img_height (fst (place_tile st mx my acc entry)) = img_height (fst acc) \<and>
   img_mode (fst (place_tile st mx my acc entry)) = img_mode (fst acc) \<and>
   img_loads (fst (place_tile st mx my acc entry)) = img_loads (fst acc)"
  by (auto simp: place_tile_def Let_def image_paste_def image_convert_def split: sum.splits if_splits)

lemma foldl_place_tile_frame:
  "img_width (fst (foldl (place_tile st mx my) acc ts)) = img_width (fst acc) \<and>
   img_height (fst (foldl (place_tile st mx my) acc ts)) = img_height (fst acc) \<and>
   img_mode (fst (foldl (place_tile st mx my) acc ts)) = img_mode (fst acc) \<and>
   img_loads (fst (foldl (place_tile st mx my) acc ts)) = img_loads (fst acc)"
proof (induction ts arbitrary: acc)
  case Nil
  then show ?case by simp
next
  case (Cons t ts)
  show ?case using Cons [of "place_tile st mx my acc t"] place_tile_frame [of st mx my acc t]
    by simp
qed

lemma build_canvas_value:
  assumes "min_tile_x tb \<le> max_tile_x tb" "min_tile_y tb \<le> max_tile_y tb" "0 \<le> tile_size st"
  shows "build_canvas st ts tb =
     Inr (fst (foldl (place_tile st (min_tile_x tb) (min_tile_y tb))
       (\<lparr>img_mode = ''RGB'',
         img_width = (max_tile_x tb - min_tile_x tb + 1) * tile_size st,
         img_height = (max_tile_y tb - min_tile_y tb + 1) * tile_size st,
         img_pixel = (\<lambda>i j. RGB 200 200 200), img_loads = True\<rparr>, 0) ts))"
proof -
  have "0 \<le> (max_tile_x tb - min_tile_x tb + 1) * tile_size st"
       "0 \<le> (max_tile_y tb - min_tile_y tb + 1) * tile_size st"
    using assms by simp_all
  then show ?thesis by (simp add: build_canvas_def image_new_def Let_def not_less [symmetric])
qed

lemma side_le_area:
  fixes a b :: int assumes "0 < a" "0 < b" "a * b \<le> k" shows "a \<le> k" "b \<le> k"
proof -
  have "a * 1 \<le> a * b" using assms(1,2) by (intro mult_left_mono) simp_all
  then show "a \<le> k" using assms(3) by simp
  have "1 * b \<le> a * b" using assms(1,2) by (intro mult_right_mono) simp_all
  then show "b \<le> k" using assms(3) by simp
qed

lemma no_c_int_overflow: "0 < a \<Longrightarrow> a \<le> MAX_IMAGE_PIXELS \<Longrightarrow> \<not> c_int_overflow a"
  by (simp add: c_int_overflow_def MAX_IMAGE_PIXELS_def)

text \<open>
  C7, amended. For every tile list, a rectangle with \<open>min \<le> max\<close> on both axes, a
  positive tile size, an output size of at least one pixel on each side, and a canvas and
  an output of at most \<open>MAX_IMAGE_PIXELS\<close> pixels each, \<open>stitch_tiles\<close> returns an
  image, and its width and height are those of the output size.
\<close>

theorem stitch_tiles_output_size:
  assumes "min_tile_x tb \<le> max_tile_x tb" and "min_tile_y tb \<le> max_tile_y tb"
    and "0 < tile_size st" and "0 < fst output_size" and "0 < snd output_size"
    and "(max_tile_x tb - min_tile_x tb + 1) * tile_size st *
         ((max_tile_y tb - min_tile_y tb + 1) * tile_size st) \<le> MAX_IMAGE_PIXELS"
    and "fst output_size * snd output_size \<le> MAX_IMAGE_PIXELS"
  shows "\<exists>img. stitch_tiles lanczos st ts tb output_size = Inr img \<and>
               img_width img = fst output_size \<and> img_height img = snd output_size"
proof -
  let ?w = "(max_tile_x tb - min_tile_x tb + 1) * tile_size st"
  let ?h = "(max_tile_y tb - min_tile_y tb + 1) * tile_size st"
  have ts: "0 \<le> tile_size st" using assms(3) by simp
  have w: "0 < ?w" and h: "0 < ?h" using assms(1,2,3) by simp_all
  have cw: "\<not> c_int_overflow ?w" "\<not> c_int_overflow ?h"
    using side_le_area [OF w h assms(6)] w h by (simp_all add: no_c_int_overflow)
  have co: "\<not> c_int_overflow (fst output_size)" "\<not> c_int_overflow (snd output_size)"
    using side_le_area [OF assms(4,5,7)] assms(4,5) by (simp_all add: no_c_int_overflow)
  obtain c where c: "build_canvas st ts tb = Inr c"
    using build_canvas_value [OF assms(1,2) ts] by simp
  have d: "img_width c = ?w" "img_height c = ?h"
    using c unfolding build_canvas_value [OF assms(1,2) ts]
    by (auto simp: foldl_place_tile_frame)
  show ?thesis
  proof (cases "(?w, ?h) = output_size")
    case True
    then show ?thesis using c cw d by (auto simp: stitch_tiles_def Let_def)
  next
    case False
    then show ?thesis using c cw co assms(4,5)
      by (simp add: stitch_tiles_def Let_def image_resize_def not_less [symmetric])
  qed
qed

theorem stitch_tiles_output_size_witness:
  "min_tile_x demo_bounds \<le> max_tile_x demo_bounds \<and>
   min_tile_y demo_bounds \<le> max_tile_y demo_bounds \<and>
   0 < tile_size \<lparr>tile_size = 256\<rparr> \<and> (0::int) < fst (1024, 1024) \<and> (0::int) < snd (1024, 1024) \<and>
   (max_tile_x demo_bounds - min_tile_x demo_bounds + 1) * tile_size \<lparr>tile_size = 256\<rparr> *
     ((max_tile_y demo_bounds - min_tile_y demo_bounds + 1) * tile_size \<lparr>tile_size = 256\<rparr>)
     \<le> MAX_IMAGE_PIXELS \<and>
   fst (1024, 1024) * snd (1024, 1024) \<le> MAX_IMAGE_PIXELS \<and>
   (\<exists>img. stitch_tiles demo_resampler \<lparr>tile_size = 256\<rparr>
            [((0, 0), gray_tile)] demo_bounds (1024, 1024) = Inr img \<and>
          img_width img = 1024 \<and> img_height img = 1024)"
proof -
  have h1: "min_tile_x demo_bounds \<le> max_tile_x demo_bounds" by (simp add: demo_bounds_def)
  have h2: "min_tile_y demo_bounds \<le> max_tile_y demo_bounds" by (simp add: demo_bounds_def)
  have h3: "0 < tile_size \<lparr>tile_size = 256\<rparr>" by simp
  have h4: "(0::int) < fst (1024, 1024)" by simp
  have h5: "(0::int) < snd (1024, 1024)" by simp
  have h6: "(max_tile_x demo_bounds - min_tile_x demo_bounds + 1) * tile_size \<lparr>tile_size = 256\<rparr> *
     ((max_tile_y demo_bounds - min_tile_y demo_bounds + 1) * tile_size \<lparr>tile_size = 256\<rparr>)
     \<le> MAX_IMAGE_PIXELS" by (simp add: demo_bounds_def MAX_IMAGE_PIXELS_def)
  have h7: "fst (1024, 1024) * snd (1024, 1024) \<le> MAX_IMAGE_PIXELS"
    by (simp add: MAX_IMAGE_PIXELS_def)
  show ?thesis
    using stitch_tiles_output_size [OF h1 h2 h3 h4 h5 h6 h7,
        of demo_resampler "[((0, 0), gray_tile)]"] h1 h2 h6 h7
    by simp
qed

text \<open>
  C7 as stated fails on an output size with an empty side and on a rectangle whose
  canvas does not fit a C int: with the two tiles of \<open>demo_bounds\<close> and the output size
  \<open>(0, 5)\<close> the resize raises ValueError, and with the \<open>2^23\<close> tiles of \<open>wide_bounds\<close>
  \<open>Image.new\<close> raises OverflowError. Neither call returns an image.
\<close>

theorem stitch_tiles_empty_output_counterexample:
  "min_tile_x demo_bounds \<le> max_tile_x demo_bounds \<and>
   min_tile_y demo_bounds \<le> max_tile_y demo_bounds \<and>
   stitch_tiles demo_resampler \<lparr>tile_size = 256\<rparr> [((0, 0), gray_tile)] demo_bounds (0, 5)
     = Inl ValueError \<and>
   min_tile_x wide_bounds \<le> max_tile_x wide_bounds \<and>
   min_tile_y wide_bounds \<le> max_tile_y wide_bounds \<and>
   stitch_tiles demo_resampler \<lparr>tile_size = 256\<rparr> [] wide_bounds (1024, 1024)
     = Inl OverflowError"
  by (simp add: stitch_tiles_def Let_def build_canvas_def image_new_def image_resize_def
        c_int_overflow_def demo_bounds_def wide_bounds_def split: sum.splits)







lemma py_range3_zero_step: "py_range3 start stop 0 = Inl ValueError"
  by (simp add: py_range3_def)

lemma py_range3_nonzero_step: "step \<noteq> 0 \<Longrightarrow> \<exists>xs. py_range3 start stop step = Inr xs"
  by (simp add: py_range3_def)

lemma py_int_ratio_zero:
  assumes "0 < a" "a < b" shows "py_int (a / b) = 0"
proof -
  have "0 \<le> a / b" "a / b < 1" using assms by simp_all
  then show ?thesis by (simp add: py_int_def floor_eq_iff)
qed

lemma py_int_ratio_nonneg:
  assumes "0 < a" "0 < b" shows "0 \<le> py_int (a / b)"
  using assms by (simp add: py_int_def)

text \<open>
  C10. For a positive grid spacing and a positive scale, \<open>add_grid_overlay\<close> returns an
  image only when the pixel spacing \<open>int(grid_spacing_m / meters_per_pixel)\<close> is at
  least 1; when the spacing is below the scale the pixel spacing is 0 and the call
  raises ValueError, from the zero step of \<open>range\<close>.
\<close>

theorem add_grid_overlay_spacing:
  assumes "0 < grid_spacing_m" and "0 < meters_per_pixel"
  shows "(\<forall>out. add_grid_overlay blend img grid_spacing_m meters_per_pixel col alpha = Inr out \<longrightarrow>
            1 \<le> py_int (grid_spacing_m / meters_per_pixel)) \<and>
         (grid_spacing_m < meters_per_pixel \<longrightarrow>
            py_int (grid_spacing_m / meters_per_pixel) = 0 \<and>
            add_grid_overlay blend img grid_spacing_m meters_per_pixel col alpha = Inl ValueError)"
proof (intro conjI allI impI)
  fix out
  assume ok: "add_grid_overlay blend img grid_spacing_m meters_per_pixel col alpha = Inr out"
  have "py_int (grid_spacing_m / meters_per_pixel) \<noteq> 0"
  proof
    assume "py_int (grid_spacing_m / meters_per_pixel) = 0"
    then have "isl (add_grid_overlay blend img grid_spacing_m meters_per_pixel col alpha)"
      using assms(2)
      by (simp add: add_grid_overlay_def Let_def py_range3_zero_step split: sum.splits)
    with ok show False by simp
  qed
  then show "1 \<le> py_int (grid_spacing_m / meters_per_pixel)"
    using py_int_ratio_nonneg [OF assms] by linarith
next
  assume lt: "grid_spacing_m < meters_per_pixel"
  then show z: "py_int (grid_spacing_m / meters_per_pixel) = 0"
    using assms(1) by (intro py_int_ratio_zero)
  show "add_grid_overlay blend img grid_spacing_m meters_per_pixel col alpha = Inl ValueError"
    using assms(2) z
    by (simp add: add_grid_overlay_def Let_def py_range3_zero_step image_new_def split: sum.splits)
qed

theorem add_grid_overlay_spacing_witness:
  "(0::real) < 1 / 2 \<and> (0::real) < 1 \<and> (1 / 2 :: real) < 1 \<and>
   py_int ((1 / 2) / 1) = 0 \<and>
   add_grid_overlay (\<lambda>p q. q) gray_tile (1 / 2) 1 (255, 0, 0) 128 = Inl ValueError"
  using add_grid_overlay_spacing [of "1 / 2" 1 "\<lambda>p q. q" gray_tile "(255, 0, 0)" 128]
  by simp

lemma foldl_draw_vline_frame:
  "img_mode (foldl (\<lambda>ov x. draw_vline ov x c) ov0 xs) = img_mode ov0 \<and>
   img_width (foldl (\<lambda>ov x. draw_vline ov x c) ov0 xs) = img_width ov0 \<and>
   img_height (foldl (\<lambda>ov x. draw_vline ov x c) ov0 xs) = img_height ov0"
  by (induction xs arbitrary: ov0) (simp_all add: draw_vline_def)

lemma foldl_draw_hline_frame:
  "img_mode (foldl (\<lambda>ov y. draw_hline ov y c) ov0 ys) = img_mode ov0 \<and>
   img_width (foldl (\<lambda>ov y. draw_hline ov y c) ov0 ys) = img_width ov0 \<and>
   img_height (foldl (\<lambda>ov y. draw_hline ov y c) ov0 ys) = img_height ov0"
  by (induction ys arbitrary: ov0) (simp_all add: draw_hline_def)

lemma add_grid_overlay_success:
  assumes "0 < meters_per_pixel" "meters_per_pixel \<le> grid_spacing_m"
    and "img_loads img" "0 \<le> img_width img" "0 \<le> img_height img"
  shows "\<exists>out. add_grid_overlay blend img grid_spacing_m meters_per_pixel col alpha = Inr out"
proof -
  have "1 \<le> grid_spacing_m / meters_per_pixel" using assms by simp
  then have "1 \<le> py_int (grid_spacing_m / meters_per_pixel)"
    by (simp add: py_int_def le_floor_iff)
  then have nz: "py_int (grid_spacing_m / meters_per_pixel) \<noteq> 0" by simp
  obtain xs where xs: "py_range3 0 (img_width img) (py_int (grid_spacing_m / meters_per_pixel)) = Inr xs"
    using py_range3_nonzero_step [OF nz] by blast
  obtain ys where ys: "py_range3 0 (img_height img) (py_int (grid_spacing_m / meters_per_pixel)) = Inr ys"
    using py_range3_nonzero_step [OF nz] by blast
  show ?thesis
    using assms(1,3,4,5) xs ys
    by (simp add: add_grid_overlay_def Let_def image_new_def image_convert_def alpha_composite_def
          foldl_draw_vline_frame foldl_draw_hline_frame not_less [symmetric])
qed

end
